theory Spec2Isabelle
  imports Main
begin

section \<open>Move runtime conventions shared by the three on-chain modules\<close>

text \<open>
  The on-chain modules are written in Sui Move.  An entry function either commits or aborts;
  an abort discards every state change of the transaction.  Each entry function is therefore a
  function from the shared object and its arguments to \<open>abort + (object \<times> effects)\<close>, where
  the effects are the coin transfers, object transfers and events of the call in program order.
  \<open>u64\<close> and \<open>u8\<close> values are natural numbers; Move aborts on arithmetic overflow and
  underflow, which is written out at every addition, subtraction and multiplication.
\<close>

type_synonym address = nat
type_synonym ID = nat

datatype abort =
    Abort nat               \<comment> \<open>\<open>assert!(cond, code)\<close> with the error code\<close>
  | ArithmeticError         \<comment> \<open>u64 overflow or underflow\<close>
  | FieldDoesNotExist       \<comment> \<open>\<open>table::borrow\<close> / \<open>table::borrow_mut\<close> of an absent key\<close>
  | FieldAlreadyExists      \<comment> \<open>\<open>table::add\<close> of a key already present\<close>
  | IndexOutOfBounds        \<comment> \<open>\<open>vector::borrow\<close> past the end\<close>
  | VectorNotEmpty          \<comment> \<open>\<open>vector::destroy_empty\<close> of a non-empty vector\<close>

definition MAX_U64 :: nat where
  "MAX_U64 = 18446744073709551615"

text \<open>The transaction context: the sender and the id the next \<open>object::new(ctx)\<close> returns.\<close>

record TxContext =
  sender :: address
  fresh_id :: ID

text \<open>
  \<open>string::utf8(bytes)\<close> of the Move standard library aborts with \<open>EINVALID_UTF8 = 1\<close> unless
  the bytes are well-formed UTF-8 (no overlong forms, no surrogates, nothing above U+10FFFF).
  A \<open>vector<u8>\<close> is a \<open>string\<close> here (a list of 8-bit characters), and so is a Move \<open>String\<close>.
\<close>

definition EINVALID_UTF8 :: nat where
  "EINVALID_UTF8 = 1"

definition cont_byte :: "nat \<Rightarrow> bool" where
  "cont_byte b = (128 \<le> b \<and> b \<le> 191)"

fun internal_check_utf8 :: "nat list \<Rightarrow> bool" where
  "internal_check_utf8 [] = True"
| "internal_check_utf8 (b0 # bs) =
     (if b0 < 128 then internal_check_utf8 bs
      else if 194 \<le> b0 \<and> b0 \<le> 223 then
        (case bs of
           b1 # r \<Rightarrow> cont_byte b1 \<and> internal_check_utf8 r
         | _ \<Rightarrow> False)
      else if 224 \<le> b0 \<and> b0 \<le> 239 then
        (case bs of
           b1 # b2 # r \<Rightarrow>
             (if b0 = 224 then 160 \<le> b1 \<and> b1 \<le> 191
              else if b0 = 237 then 128 \<le> b1 \<and> b1 \<le> 159
              else cont_byte b1)
             \<and> cont_byte b2 \<and> internal_check_utf8 r
         | _ \<Rightarrow> False)
      else if 240 \<le> b0 \<and> b0 \<le> 244 then
        (case bs of
           b1 # b2 # b3 # r \<Rightarrow>
             (if b0 = 240 then 144 \<le> b1 \<and> b1 \<le> 191
              else if b0 = 244 then 128 \<le> b1 \<and> b1 \<le> 143
              else cont_byte b1)
             \<and> cont_byte b2 \<and> cont_byte b3 \<and> internal_check_utf8 r
         | _ \<Rightarrow> False)
      else False)"

definition valid_utf8 :: "string \<Rightarrow> bool" where
  "valid_utf8 bytes = internal_check_utf8 (map of_char bytes)"

section \<open>Deployment registry (module \<open>avenox::deployment_registry\<close>)\<close>

definition STATUS_PENDING :: nat where "STATUS_PENDING = 0"
definition STATUS_PROCESSING :: nat where "STATUS_PROCESSING = 1"
definition STATUS_DEPLOYED :: nat where "STATUS_DEPLOYED = 2"
definition STATUS_FAILED :: nat where "STATUS_FAILED = 3"

definition E_INSUFFICIENT_PAYMENT :: nat where "E_INSUFFICIENT_PAYMENT = 1001"
definition E_UNAUTHORIZED :: nat where "E_UNAUTHORIZED = 1003"
definition E_INVALID_STATUS :: nat where "E_INVALID_STATUS = 1004"

record DeploymentRecord =
  deployment_id :: ID
  user :: address
  repo_url :: string
  commit_hash :: string
  branch :: string
  walrus_site_id :: string
  usdc_paid :: nat
  estimated_wal :: nat
  actual_wal_used :: nat
  created_at :: nat
  deployed_at :: nat
  status :: nat
  build_command :: string
  output_dir :: string
  version :: nat
  error_message :: string
  environment :: string
  deployment_type :: nat
  parent_deployment_id :: "ID option"
  metadata :: string

record DeploymentRegistry =
  user_deployments :: "address \<rightharpoonup> ID list"
  deployments :: "ID \<rightharpoonup> DeploymentRecord"
  total_deployments :: nat
  total_usdc_collected :: nat
  treasury_address :: address
  min_payment_usdc :: nat
  platform_fee_bps :: nat

text \<open>The \<open>DeploymentRequest\<close> object handed to the backend; its \<open>id\<close> is the deployment id.\<close>

record DeploymentRequest =
  user :: address
  deployment_id :: ID
  repo_url :: string
  branch :: string
  commit_hash :: string
  build_command :: string
  output_dir :: string
  usdc_paid :: nat
  estimated_wal :: nat
  created_at :: nat

text \<open>The backend capability; the status functions take it and never read it.\<close>

record DeploymentProcessor =
  authorized_address :: address

datatype dr_effect =
    PublicTransferCoin nat address             \<comment> \<open>coin value, recipient\<close>
  | TransferRequest DeploymentRequest address
  | DeploymentCreated ID address string nat nat  \<comment> \<open>id, user, repo_url, usdc_paid, timestamp\<close>
  | DeploymentCompleted ID string nat nat        \<comment> \<open>id, walrus_site_id, actual_wal_used, timestamp\<close>
  | DeploymentFailed ID string nat               \<comment> \<open>id, error_message, timestamp\<close>

definition init_registry :: DeploymentRegistry where
  "init_registry =
     \<lparr> user_deployments = Map.empty,
       deployments = Map.empty,
       total_deployments = 0,
       total_usdc_collected = 0,
       treasury_address = 4660,
       min_payment_usdc = 5000000,
       platform_fee_bps = 2000 \<rparr>"

definition init_deployment_processor :: DeploymentProcessor where
  "init_deployment_processor = \<lparr> authorized_address = 22136 \<rparr>"

text \<open>The \<open>while\<close> loop of \<open>get_next_version\<close>, over the index \<open>i\<close> as in the source.\<close>

function get_next_version_loop ::
  "DeploymentRegistry \<Rightarrow> string \<Rightarrow> ID list \<Rightarrow> nat \<Rightarrow> nat \<Rightarrow> abort + nat" where
  "get_next_version_loop registry url ids ver i =
     (if i < length ids then
        (case deployments registry (ids ! i) of
           None \<Rightarrow> Inl FieldDoesNotExist
         | Some deployment \<Rightarrow>
             if DeploymentRecord.repo_url deployment = url then
               (if ver + 1 > MAX_U64 then Inl ArithmeticError
                else get_next_version_loop registry url ids (ver + 1) (i + 1))
             else get_next_version_loop registry url ids ver (i + 1))
      else Inr ver)"
  by pat_completeness auto
termination
  by (relation "measure (\<lambda>(registry, url, ids, ver, i). length ids - i)") auto

definition get_next_version :: "DeploymentRegistry \<Rightarrow> string \<Rightarrow> address \<Rightarrow> abort + nat" where
  "get_next_version registry url usr =
     (case user_deployments registry usr of
        None \<Rightarrow> Inr 1
      | Some ids \<Rightarrow> get_next_version_loop registry url ids 1 0)"

definition request_deployment ::
  "DeploymentRegistry \<Rightarrow> nat \<Rightarrow> string \<Rightarrow> string \<Rightarrow> string \<Rightarrow> string \<Rightarrow> string \<Rightarrow> nat \<Rightarrow> string
     \<Rightarrow> nat \<Rightarrow> TxContext \<Rightarrow> abort + DeploymentRegistry \<times> dr_effect list" where
  "request_deployment registry payment url br commit build_cmd out_dir est_wal env clock ctx =
     (let usr = sender ctx;
          payment_amount = payment
      in
      if \<not> payment_amount \<ge> min_payment_usdc registry then Inl (Abort E_INSUFFICIENT_PAYMENT)
      else
        let deployment_id_copy = fresh_id ctx in
        if \<not> (valid_utf8 url \<and> valid_utf8 commit \<and> valid_utf8 br
               \<and> valid_utf8 build_cmd \<and> valid_utf8 out_dir)
        then Inl (Abort EINVALID_UTF8)
        else
          case get_next_version registry url usr of
            Inl e \<Rightarrow> Inl e
          | Inr ver \<Rightarrow>
              if \<not> valid_utf8 env then Inl (Abort EINVALID_UTF8)
              else
                let new_record =
                      \<lparr> DeploymentRecord.deployment_id = deployment_id_copy,
                        DeploymentRecord.user = usr,
                        DeploymentRecord.repo_url = url,
                        DeploymentRecord.commit_hash = commit,
                        DeploymentRecord.branch = br,
                        walrus_site_id = [],
                        DeploymentRecord.usdc_paid = payment_amount,
                        DeploymentRecord.estimated_wal = est_wal,
                        actual_wal_used = 0,
                        DeploymentRecord.created_at = clock,
                        deployed_at = 0,
                        status = STATUS_PENDING,
                        DeploymentRecord.build_command = build_cmd,
                        DeploymentRecord.output_dir = out_dir,
                        version = ver,
                        error_message = [],
                        environment = env,
                        deployment_type = 0,
                        parent_deployment_id = None,
                        metadata = ''{}'' \<rparr>
                in
                if deployments registry deployment_id_copy \<noteq> None then Inl FieldAlreadyExists
                else
                  let deployments1 = (deployments registry)(deployment_id_copy \<mapsto> new_record);
                      user_deployments1 =
                        (if user_deployments registry usr = None
                         then (user_deployments registry)(usr \<mapsto> [])
                         else user_deployments registry)
                  in
                  (case user_deployments1 usr of
                    None \<Rightarrow> Inl FieldDoesNotExist
                  | Some user_list \<Rightarrow>
                      let user_deployments2 = user_deployments1(usr \<mapsto> user_list @ [deployment_id_copy]) in
                      if total_deployments registry + 1 > MAX_U64 then Inl ArithmeticError
                      else if total_usdc_collected registry + payment_amount > MAX_U64
                      then Inl ArithmeticError
                      else
                        let request =
                              \<lparr> DeploymentRequest.user = usr,
                                DeploymentRequest.deployment_id = deployment_id_copy,
                                DeploymentRequest.repo_url = url,
                                DeploymentRequest.branch = br,
                                DeploymentRequest.commit_hash = commit,
                                DeploymentRequest.build_command = build_cmd,
                                DeploymentRequest.output_dir = out_dir,
                                DeploymentRequest.usdc_paid = payment_amount,
                                DeploymentRequest.estimated_wal = est_wal,
                                DeploymentRequest.created_at = clock \<rparr>
                        in
                        Inr (registry
                               \<lparr> user_deployments := user_deployments2,
                                 deployments := deployments1,
                                 total_deployments := total_deployments registry + 1,
                                 total_usdc_collected := total_usdc_collected registry + payment_amount \<rparr>,
                             [PublicTransferCoin payment_amount (treasury_address registry),
                              DeploymentCreated deployment_id_copy usr url payment_amount clock,
                              TransferRequest request (treasury_address registry)])))"

definition mark_processing ::
  "DeploymentRegistry \<Rightarrow> DeploymentProcessor \<Rightarrow> ID \<Rightarrow> TxContext
     \<Rightarrow> abort + DeploymentRegistry \<times> dr_effect list" where
  "mark_processing registry processor did ctx =
     (case deployments registry did of
        None \<Rightarrow> Inl FieldDoesNotExist
      | Some deployment \<Rightarrow>
          if \<not> status deployment = STATUS_PENDING then Inl (Abort E_INVALID_STATUS)
          else
            Inr (registry
                   \<lparr> deployments :=
                       (deployments registry)(did \<mapsto> deployment \<lparr> status := STATUS_PROCESSING \<rparr>) \<rparr>,
                 []))"

definition mark_deployed ::
  "DeploymentRegistry \<Rightarrow> DeploymentProcessor \<Rightarrow> ID \<Rightarrow> string \<Rightarrow> nat \<Rightarrow> nat \<Rightarrow> TxContext
     \<Rightarrow> abort + DeploymentRegistry \<times> dr_effect list" where
  "mark_deployed registry processor did site_id actual_wal clock ctx =
     (case deployments registry did of
        None \<Rightarrow> Inl FieldDoesNotExist
      | Some deployment \<Rightarrow>
          if \<not> status deployment = STATUS_PROCESSING then Inl (Abort E_INVALID_STATUS)
          else if \<not> valid_utf8 site_id then Inl (Abort EINVALID_UTF8)
          else
            Inr (registry
                   \<lparr> deployments :=
                       (deployments registry)
                         (did \<mapsto> deployment
                            \<lparr> status := STATUS_DEPLOYED,
                              walrus_site_id := site_id,
                              actual_wal_used := actual_wal,
                              deployed_at := clock \<rparr>) \<rparr>,
                 [DeploymentCompleted did site_id actual_wal clock]))"

definition mark_failed ::
  "DeploymentRegistry \<Rightarrow> DeploymentProcessor \<Rightarrow> ID \<Rightarrow> string \<Rightarrow> nat \<Rightarrow> TxContext
     \<Rightarrow> abort + DeploymentRegistry \<times> dr_effect list" where
  "mark_failed registry processor did err_msg clock ctx =
     (case deployments registry did of
        None \<Rightarrow> Inl FieldDoesNotExist
      | Some deployment \<Rightarrow>
          if \<not> valid_utf8 err_msg then Inl (Abort EINVALID_UTF8)
          else
            Inr (registry
                   \<lparr> deployments :=
                       (deployments registry)
                         (did \<mapsto> deployment
                            \<lparr> status := STATUS_FAILED,
                              error_message := err_msg \<rparr>) \<rparr>,
                 [DeploymentFailed did err_msg clock]))"

definition request_rollback_deployment ::
  "DeploymentRegistry \<Rightarrow> nat \<Rightarrow> ID \<Rightarrow> nat \<Rightarrow> TxContext
     \<Rightarrow> abort + DeploymentRegistry \<times> dr_effect list" where
  "request_rollback_deployment registry payment parent_id clock ctx =
     (let usr = sender ctx;
          payment_amount = payment
      in
      case deployments registry parent_id of
        None \<Rightarrow> Inl FieldDoesNotExist
      | Some parent \<Rightarrow>
          if \<not> DeploymentRecord.user parent = usr then Inl (Abort E_UNAUTHORIZED)
          else
            let deployment_id_copy = fresh_id ctx;
                new_record =
                  \<lparr> DeploymentRecord.deployment_id = deployment_id_copy,
                    DeploymentRecord.user = usr,
                    DeploymentRecord.repo_url = DeploymentRecord.repo_url parent,
                    DeploymentRecord.commit_hash = DeploymentRecord.commit_hash parent,
                    DeploymentRecord.branch = DeploymentRecord.branch parent,
                    walrus_site_id = [],
                    DeploymentRecord.usdc_paid = payment_amount,
                    DeploymentRecord.estimated_wal = DeploymentRecord.estimated_wal parent,
                    actual_wal_used = 0,
                    DeploymentRecord.created_at = clock,
                    deployed_at = 0,
                    status = STATUS_PENDING,
                    DeploymentRecord.build_command = DeploymentRecord.build_command parent,
                    DeploymentRecord.output_dir = DeploymentRecord.output_dir parent,
                    version = version parent,
                    error_message = [],
                    environment = environment parent,
                    deployment_type = 2,
                    parent_deployment_id = Some parent_id,
                    metadata = ''{\"type\":\"rollback\"}'' \<rparr>
            in
            if deployments registry deployment_id_copy \<noteq> None then Inl FieldAlreadyExists
            else
              let deployments1 = (deployments registry)(deployment_id_copy \<mapsto> new_record) in
              (case user_deployments registry usr of
                None \<Rightarrow> Inl FieldDoesNotExist
              | Some user_list \<Rightarrow>
                  if total_deployments registry + 1 > MAX_U64 then Inl ArithmeticError
                  else
                    let request =
                          \<lparr> DeploymentRequest.user = usr,
                            DeploymentRequest.deployment_id = deployment_id_copy,
                            DeploymentRequest.repo_url = DeploymentRecord.repo_url parent,
                            DeploymentRequest.branch = DeploymentRecord.branch parent,
                            DeploymentRequest.commit_hash = DeploymentRecord.commit_hash parent,
                            DeploymentRequest.build_command = DeploymentRecord.build_command parent,
                            DeploymentRequest.output_dir = DeploymentRecord.output_dir parent,
                            DeploymentRequest.usdc_paid = payment_amount,
                            DeploymentRequest.estimated_wal = DeploymentRecord.estimated_wal parent,
                            DeploymentRequest.created_at = clock \<rparr>
                    in
                    Inr (registry
                           \<lparr> user_deployments :=
                               (user_deployments registry)(usr \<mapsto> user_list @ [deployment_id_copy]),
                             deployments := deployments1,
                             total_deployments := total_deployments registry + 1 \<rparr>,
                         [PublicTransferCoin payment_amount (treasury_address registry),
                          TransferRequest request (treasury_address registry)])))"

definition get_deployment :: "DeploymentRegistry \<Rightarrow> ID \<Rightarrow> abort + DeploymentRecord" where
  "get_deployment registry did =
     (case deployments registry did of None \<Rightarrow> Inl FieldDoesNotExist | Some r \<Rightarrow> Inr r)"

definition get_user_deployments :: "DeploymentRegistry \<Rightarrow> address \<Rightarrow> ID list" where
  "get_user_deployments registry usr =
     (case user_deployments registry usr of Some ids \<Rightarrow> ids | None \<Rightarrow> [])"

text \<open>
  The entry functions of the module as transactions.  A transaction that aborts leaves the
  registry as it was; \<open>dr_run\<close> is the registry after a sequence of transactions, and
  \<open>dr_created\<close> lists, in order, the (sender, id) pairs of the records the committed
  transactions created.
\<close>

datatype dr_call =
    RequestDeployment nat string string string string string nat string nat TxContext
  | MarkProcessing DeploymentProcessor ID TxContext
  | MarkDeployed DeploymentProcessor ID string nat nat TxContext
  | MarkFailed DeploymentProcessor ID string nat TxContext
  | RequestRollback nat ID nat TxContext

fun dr_exec :: "DeploymentRegistry \<Rightarrow> dr_call \<Rightarrow> abort + DeploymentRegistry \<times> dr_effect list" where
  "dr_exec registry (RequestDeployment payment url br commit build_cmd out_dir est_wal env clock ctx) =
     request_deployment registry payment url br commit build_cmd out_dir est_wal env clock ctx"
| "dr_exec registry (MarkProcessing processor did ctx) = mark_processing registry processor did ctx"
| "dr_exec registry (MarkDeployed processor did site_id actual_wal clock ctx) =
     mark_deployed registry processor did site_id actual_wal clock ctx"
| "dr_exec registry (MarkFailed processor did err_msg clock ctx) =
     mark_failed registry processor did err_msg clock ctx"
| "dr_exec registry (RequestRollback payment parent_id clock ctx) =
     request_rollback_deployment registry payment parent_id clock ctx"

definition dr_commit :: "DeploymentRegistry \<Rightarrow> dr_call \<Rightarrow> DeploymentRegistry" where
  "dr_commit registry call =
     (case dr_exec registry call of Inl e \<Rightarrow> registry | Inr (registry', effects) \<Rightarrow> registry')"

fun dr_run :: "DeploymentRegistry \<Rightarrow> dr_call list \<Rightarrow> DeploymentRegistry" where
  "dr_run registry [] = registry"
| "dr_run registry (call # calls) = dr_run (dr_commit registry call) calls"

fun creates :: "dr_call \<Rightarrow> (address \<times> ID) list" where
  "creates (RequestDeployment payment url br commit build_cmd out_dir est_wal env clock ctx) =
     [(sender ctx, fresh_id ctx)]"
| "creates (RequestRollback payment parent_id clock ctx) = [(sender ctx, fresh_id ctx)]"
| "creates call = []"

fun dr_created :: "DeploymentRegistry \<Rightarrow> dr_call list \<Rightarrow> (address \<times> ID) list" where
  "dr_created registry [] = []"
| "dr_created registry (call # calls) =
     (case dr_exec registry call of
        Inl e \<Rightarrow> dr_created registry calls
      | Inr (registry', effects) \<Rightarrow> creates call @ dr_created registry' calls)"

text \<open>The status of a stored record, when the id is known.\<close>

definition status_of :: "DeploymentRegistry \<Rightarrow> ID \<Rightarrow> nat option" where
  "status_of registry did = map_option status (deployments registry did)"

text \<open>The consistency of the two tables: a user's list holds, without repetition, exactly the ids
  of the records of that user, and every record's user has a list.\<close>

definition registry_inv :: "DeploymentRegistry \<Rightarrow> bool" where
  "registry_inv reg \<longleftrightarrow>
     (\<forall>u ids. user_deployments reg u = Some ids \<longrightarrow>
        distinct ids \<and>
        set ids = {i. \<exists>d. deployments reg i = Some d \<and> DeploymentRecord.user d = u})
   \<and> (\<forall>i d. deployments reg i = Some d \<longrightarrow>
          user_deployments reg (DeploymentRecord.user d) \<noteq> None)"


text \<open>A concrete run used to evaluate the functions: one user deploys and the backend completes it.\<close>

definition demo_ctx :: "ID \<Rightarrow> TxContext" where
  "demo_ctx n = \<lparr> sender = 7, fresh_id = n \<rparr>"

definition demo_deploy :: "nat \<Rightarrow> ID \<Rightarrow> dr_call" where
  "demo_deploy clock n =
     RequestDeployment 5000000 ''repo'' ''main'' ''c0ffee'' ''make'' ''out'' 0 ''prod'' clock (demo_ctx n)"

definition demo_deployed :: "dr_call list" where
  "demo_deployed =
     [demo_deploy 1000 100,
      MarkProcessing init_deployment_processor 100 (demo_ctx 0),
      MarkDeployed init_deployment_processor 100 ''site'' 3 2000 (demo_ctx 0)]"


section \<open>Subscription manager (module \<open>avenox::subscription_manager\<close>)\<close>

definition SECONDS_IN_MONTH :: nat where "SECONDS_IN_MONTH = 2592000000"

text \<open>The module's \<open>E_INSUFFICIENT_PAYMENT\<close> (3001); the registry's constant of that name is 1001.\<close>

definition E_SUBSCRIPTION_INSUFFICIENT_PAYMENT :: nat where
  "E_SUBSCRIPTION_INSUFFICIENT_PAYMENT = 3001"
definition E_SUBSCRIPTION_NOT_FOUND :: nat where "E_SUBSCRIPTION_NOT_FOUND = 3002"
definition E_ALREADY_SUBSCRIBED :: nat where "E_ALREADY_SUBSCRIBED = 3003"
definition E_INVALID_TIER :: nat where "E_INVALID_TIER = 3005"

definition TIER_FREE :: nat where "TIER_FREE = 0"
definition TIER_STARTER :: nat where "TIER_STARTER = 1"
definition TIER_GROWTH :: nat where "TIER_GROWTH = 2"

record PaymentRecord =
  amount :: nat
  timestamp :: nat
  tier :: nat
  transaction_id :: ID

record Subscription =
  user :: address
  tier :: nat
  start_date :: nat
  end_date :: nat
  deployments_used :: nat
  bandwidth_used :: nat
  auto_renew :: bool
  payment_history :: "PaymentRecord list"
  total_spent :: nat

record SubscriptionRegistry =
  subscriptions :: "address \<rightharpoonup> Subscription"
  total_revenue :: nat
  active_subscriptions :: "nat list"
  treasury :: address
  tier_prices :: "nat list"
  deployment_limits :: "nat list"
  bandwidth_limits :: "nat list"

record DeploymentUsage =
  deployment_id :: ID
  timestamp :: nat
  bandwidth_used :: nat
  storage_used :: nat
  build_time_ms :: nat

record UsageTracker =
  user :: address
  current_month_deployments :: nat
  current_month_bandwidth :: nat
  deployment_history :: "ID \<rightharpoonup> DeploymentUsage"
  last_reset :: nat

datatype sm_effect =
    TransferPayment nat address                \<comment> \<open>coin value, recipient\<close>
  | TransferTracker UsageTracker address
  | SubscriptionCreated address nat nat nat      \<comment> \<open>user, tier, amount, end_date\<close>
  | SubscriptionRenewed address nat nat nat      \<comment> \<open>user, tier, amount, new_end_date\<close>
  | SubscriptionCancelled address nat nat        \<comment> \<open>user, tier, timestamp\<close>
  | UsageExceeded address string nat nat         \<comment> \<open>user, limit_type, current_usage, limit\<close>

definition init_subscription_registry :: SubscriptionRegistry where
  "init_subscription_registry =
     \<lparr> subscriptions = Map.empty,
       total_revenue = 0,
       active_subscriptions = [0, 0, 0, 0],
       treasury = 4660,
       tier_prices = [0, 10000000, 50000000, 200000000],
       deployment_limits = [3, 10, 100, 9999],
       bandwidth_limits = [100, 1000, 10000, 99999] \<rparr>"

definition subscribe ::
  "SubscriptionRegistry \<Rightarrow> nat \<Rightarrow> nat \<Rightarrow> bool \<Rightarrow> nat \<Rightarrow> TxContext
     \<Rightarrow> abort + SubscriptionRegistry \<times> sm_effect list" where
  "subscribe registry payment tr auto clock ctx =
     (if \<not> (tr > 0 \<and> tr \<le> 3) then Inl (Abort E_INVALID_TIER)
      else
        let usr = sender ctx in
        if \<not> subscriptions registry usr = None then Inl (Abort E_ALREADY_SUBSCRIBED)
        else
          let payment_amount = payment in
          if \<not> tr < length (tier_prices registry) then Inl IndexOutOfBounds
          else
            let required_amount = tier_prices registry ! tr in
            if \<not> payment_amount \<ge> required_amount
            then Inl (Abort E_SUBSCRIPTION_INSUFFICIENT_PAYMENT)
            else
              let current_time = clock in
              if current_time + SECONDS_IN_MONTH > MAX_U64 then Inl ArithmeticError
              else
                let end_dt = current_time + SECONDS_IN_MONTH;
                    payment_record =
                      \<lparr> amount = payment_amount,
                        PaymentRecord.timestamp = current_time,
                        PaymentRecord.tier = tr,
                        transaction_id = 0 \<rparr>;
                    subscription =
                      \<lparr> Subscription.user = usr,
                        Subscription.tier = tr,
                        start_date = current_time,
                        end_date = end_dt,
                        deployments_used = 0,
                        Subscription.bandwidth_used = 0,
                        auto_renew = auto,
                        payment_history = [payment_record],
                        total_spent = payment_amount \<rparr>
                in
                if \<not> tr < length (active_subscriptions registry) then Inl IndexOutOfBounds
                else if active_subscriptions registry ! tr + 1 > MAX_U64 then Inl ArithmeticError
                else if total_revenue registry + payment_amount > MAX_U64 then Inl ArithmeticError
                else
                  let tracker =
                        \<lparr> UsageTracker.user = usr,
                          current_month_deployments = 0,
                          current_month_bandwidth = 0,
                          deployment_history = Map.empty,
                          last_reset = current_time \<rparr>
                  in
                  Inr (registry
                         \<lparr> subscriptions := (subscriptions registry)(usr \<mapsto> subscription),
                           active_subscriptions :=
                             (active_subscriptions registry)
                               [tr := active_subscriptions registry ! tr + 1],
                           total_revenue := total_revenue registry + payment_amount \<rparr>,
                       [TransferPayment payment_amount (treasury registry),
                        SubscriptionCreated usr tr payment_amount end_dt,
                        TransferTracker tracker usr]))"

definition renew_subscription ::
  "SubscriptionRegistry \<Rightarrow> nat \<Rightarrow> nat \<Rightarrow> TxContext
     \<Rightarrow> abort + SubscriptionRegistry \<times> sm_effect list" where
  "renew_subscription registry payment clock ctx =
     (let usr = sender ctx in
      case subscriptions registry usr of
        None \<Rightarrow> Inl (Abort E_SUBSCRIPTION_NOT_FOUND)
      | Some subscription \<Rightarrow>
          let tr = Subscription.tier subscription;
              payment_amount = payment
          in
          if \<not> tr < length (tier_prices registry) then Inl IndexOutOfBounds
          else
            let required_amount = tier_prices registry ! tr in
            if \<not> payment_amount \<ge> required_amount
            then Inl (Abort E_SUBSCRIPTION_INSUFFICIENT_PAYMENT)
            else
              let current_time = clock;
                  base = (if current_time > end_date subscription
                          then current_time else end_date subscription)
              in
              if base + SECONDS_IN_MONTH > MAX_U64 then Inl ArithmeticError
              else
                let new_end_date = base + SECONDS_IN_MONTH;
                    payment_record =
                      \<lparr> amount = payment_amount,
                        PaymentRecord.timestamp = current_time,
                        PaymentRecord.tier = tr,
                        transaction_id = 0 \<rparr>
                in
                if total_spent subscription + payment_amount > MAX_U64 then Inl ArithmeticError
                else if total_revenue registry + payment_amount > MAX_U64 then Inl ArithmeticError
                else
                  Inr (registry
                         \<lparr> subscriptions :=
                             (subscriptions registry)
                               (usr \<mapsto> subscription
                                  \<lparr> end_date := new_end_date,
                                    deployments_used := 0,
                                    Subscription.bandwidth_used := 0,
                                    payment_history :=
                                      payment_history subscription @ [payment_record],
                                    total_spent := total_spent subscription + payment_amount \<rparr>),
                           total_revenue := total_revenue registry + payment_amount \<rparr>,
                       [TransferPayment payment_amount (treasury registry),
                        SubscriptionRenewed usr tr payment_amount new_end_date]))"

definition can_deploy :: "SubscriptionRegistry \<Rightarrow> address \<Rightarrow> nat \<Rightarrow> abort + bool" where
  "can_deploy registry usr clock =
     (case subscriptions registry usr of
        None \<Rightarrow> Inr True
      | Some subscription \<Rightarrow>
          let current_time = clock in
          if current_time > end_date subscription then Inr False
          else if \<not> Subscription.tier subscription < length (deployment_limits registry)
          then Inl IndexOutOfBounds
          else
            let limit = deployment_limits registry ! Subscription.tier subscription in
            Inr (deployments_used subscription < limit))"

definition record_deployment ::
  "SubscriptionRegistry \<Rightarrow> UsageTracker \<Rightarrow> ID \<Rightarrow> nat \<Rightarrow> nat \<Rightarrow> nat \<Rightarrow> nat \<Rightarrow> TxContext
     \<Rightarrow> abort + (SubscriptionRegistry \<times> UsageTracker) \<times> sm_effect list" where
  "record_deployment registry tracker did bandwidth_mb storage_mb build_ms clock ctx =
     (let usr = sender ctx in
      case
        (case subscriptions registry usr of
           None \<Rightarrow> Inr (registry, [])
         | Some subscription \<Rightarrow>
             if deployments_used subscription + 1 > MAX_U64 then Inl ArithmeticError
             else if Subscription.bandwidth_used subscription + bandwidth_mb > MAX_U64
             then Inl ArithmeticError
             else
               let subscription1 =
                     subscription
                       \<lparr> deployments_used := deployments_used subscription + 1,
                         Subscription.bandwidth_used :=
                           Subscription.bandwidth_used subscription + bandwidth_mb \<rparr>
               in
               if \<not> Subscription.tier subscription1 < length (deployment_limits registry)
               then Inl IndexOutOfBounds
               else if \<not> Subscription.tier subscription1 < length (bandwidth_limits registry)
               then Inl IndexOutOfBounds
               else
                 let deployment_limit = deployment_limits registry ! Subscription.tier subscription1;
                     bandwidth_limit = bandwidth_limits registry ! Subscription.tier subscription1
                 in
                 Inr (registry \<lparr> subscriptions := (subscriptions registry)(usr \<mapsto> subscription1) \<rparr>,
                      (if deployments_used subscription1 > deployment_limit
                       then [UsageExceeded usr ''deployments''
                               (deployments_used subscription1) deployment_limit]
                       else [])
                      @ (if Subscription.bandwidth_used subscription1 > bandwidth_limit
                         then [UsageExceeded usr ''bandwidth''
                                 (Subscription.bandwidth_used subscription1) bandwidth_limit]
                         else [])))
      of
        Inl e \<Rightarrow> Inl e
      | Inr (registry1, events) \<Rightarrow>
          let usage =
                \<lparr> DeploymentUsage.deployment_id = did,
                  DeploymentUsage.timestamp = clock,
                  DeploymentUsage.bandwidth_used = bandwidth_mb,
                  storage_used = storage_mb,
                  build_time_ms = build_ms \<rparr>
          in
          if deployment_history tracker did \<noteq> None then Inl FieldAlreadyExists
          else if current_month_deployments tracker + 1 > MAX_U64 then Inl ArithmeticError
          else if current_month_bandwidth tracker + bandwidth_mb > MAX_U64 then Inl ArithmeticError
          else
            Inr ((registry1,
                  tracker
                    \<lparr> deployment_history := (deployment_history tracker)(did \<mapsto> usage),
                      current_month_deployments := current_month_deployments tracker + 1,
                      current_month_bandwidth := current_month_bandwidth tracker + bandwidth_mb \<rparr>),
                 events))"

definition upgrade_tier ::
  "SubscriptionRegistry \<Rightarrow> nat \<Rightarrow> nat \<Rightarrow> nat \<Rightarrow> TxContext
     \<Rightarrow> abort + SubscriptionRegistry \<times> sm_effect list" where
  "upgrade_tier registry payment new_tier clock ctx =
     (if \<not> (new_tier > 0 \<and> new_tier \<le> 3) then Inl (Abort E_INVALID_TIER)
      else
        let usr = sender ctx in
        case subscriptions registry usr of
          None \<Rightarrow> Inl (Abort E_SUBSCRIPTION_NOT_FOUND)
        | Some subscription \<Rightarrow>
            let old_tier = Subscription.tier subscription in
            if \<not> new_tier > old_tier then Inl (Abort E_INVALID_TIER)
            else if \<not> new_tier < length (tier_prices registry) then Inl IndexOutOfBounds
            else if \<not> old_tier < length (tier_prices registry) then Inl IndexOutOfBounds
            else
              let new_price = tier_prices registry ! new_tier;
                  old_price = tier_prices registry ! old_tier
              in
              if new_price < old_price then Inl ArithmeticError
              else
                let price_diff = new_price - old_price;
                    payment_amount = payment
                in
                if \<not> payment_amount \<ge> price_diff
                then Inl (Abort E_SUBSCRIPTION_INSUFFICIENT_PAYMENT)
                else if \<not> old_tier < length (active_subscriptions registry)
                then Inl IndexOutOfBounds
                else if active_subscriptions registry ! old_tier < 1 then Inl ArithmeticError
                else
                  let active1 =
                        (active_subscriptions registry)
                          [old_tier := active_subscriptions registry ! old_tier - 1]
                  in
                  if \<not> new_tier < length active1 then Inl IndexOutOfBounds
                  else if active1 ! new_tier + 1 > MAX_U64 then Inl ArithmeticError
                  else
                    Inr (registry
                           \<lparr> subscriptions :=
                               (subscriptions registry)
                                 (usr \<mapsto> subscription \<lparr> Subscription.tier := new_tier \<rparr>),
                             active_subscriptions := active1 [new_tier := active1 ! new_tier + 1] \<rparr>,
                         [TransferPayment payment_amount (treasury registry)]))"

definition cancel_subscription ::
  "SubscriptionRegistry \<Rightarrow> nat \<Rightarrow> TxContext \<Rightarrow> abort + SubscriptionRegistry \<times> sm_effect list" where
  "cancel_subscription registry clock ctx =
     (let usr = sender ctx in
      case subscriptions registry usr of
        None \<Rightarrow> Inl (Abort E_SUBSCRIPTION_NOT_FOUND)
      | Some subscription \<Rightarrow>
          Inr (registry
                 \<lparr> subscriptions :=
                     (subscriptions registry)(usr \<mapsto> subscription \<lparr> auto_renew := False \<rparr>) \<rparr>,
               [SubscriptionCancelled usr (Subscription.tier subscription) clock]))"

definition has_active_subscription :: "SubscriptionRegistry \<Rightarrow> address \<Rightarrow> nat \<Rightarrow> bool" where
  "has_active_subscription registry usr clock =
     (case subscriptions registry usr of
        None \<Rightarrow> False
      | Some subscription \<Rightarrow> clock \<le> end_date subscription)"

text \<open>
  The entry functions as transactions on the shared registry.  \<open>record_deployment\<close> also takes
  the caller's \<open>UsageTracker\<close>, an object of its own; the run keeps the registry only.
  \<open>sm_paid u\<close> adds up the coins that the committed transactions of sender \<open>u\<close> transferred.
\<close>

datatype sm_call =
    Subscribe nat nat bool nat TxContext
  | RenewSubscription nat nat TxContext
  | RecordDeployment UsageTracker ID nat nat nat nat TxContext
  | UpgradeTier nat nat nat TxContext
  | CancelSubscription nat TxContext

fun sm_exec :: "SubscriptionRegistry \<Rightarrow> sm_call \<Rightarrow> abort + SubscriptionRegistry \<times> sm_effect list" where
  "sm_exec registry (Subscribe payment tr auto clock ctx) = subscribe registry payment tr auto clock ctx"
| "sm_exec registry (RenewSubscription payment clock ctx) = renew_subscription registry payment clock ctx"
| "sm_exec registry (RecordDeployment tracker did bandwidth_mb storage_mb build_ms clock ctx) =
     (case record_deployment registry tracker did bandwidth_mb storage_mb build_ms clock ctx of
        Inl e \<Rightarrow> Inl e
      | Inr ((registry', tracker'), events) \<Rightarrow> Inr (registry', events))"
| "sm_exec registry (UpgradeTier payment new_tier clock ctx) =
     upgrade_tier registry payment new_tier clock ctx"
| "sm_exec registry (CancelSubscription clock ctx) = cancel_subscription registry clock ctx"

fun sm_sender :: "sm_call \<Rightarrow> address" where
  "sm_sender (Subscribe payment tr auto clock ctx) = sender ctx"
| "sm_sender (RenewSubscription payment clock ctx) = sender ctx"
| "sm_sender (RecordDeployment tracker did bandwidth_mb storage_mb build_ms clock ctx) = sender ctx"
| "sm_sender (UpgradeTier payment new_tier clock ctx) = sender ctx"
| "sm_sender (CancelSubscription clock ctx) = sender ctx"

definition sm_commit :: "SubscriptionRegistry \<Rightarrow> sm_call \<Rightarrow> SubscriptionRegistry" where
  "sm_commit registry call =
     (case sm_exec registry call of Inl e \<Rightarrow> registry | Inr (registry', effects) \<Rightarrow> registry')"

fun sm_run :: "SubscriptionRegistry \<Rightarrow> sm_call list \<Rightarrow> SubscriptionRegistry" where
  "sm_run registry [] = registry"
| "sm_run registry (call # calls) = sm_run (sm_commit registry call) calls"

fun coins_paid :: "sm_effect list \<Rightarrow> nat" where
  "coins_paid [] = 0"
| "coins_paid (TransferPayment v recipient # effects) = v + coins_paid effects"
| "coins_paid (effect # effects) = coins_paid effects"

fun sm_paid :: "address \<Rightarrow> SubscriptionRegistry \<Rightarrow> sm_call list \<Rightarrow> nat" where
  "sm_paid u registry [] = 0"
| "sm_paid u registry (call # calls) =
     (case sm_exec registry call of
        Inl e \<Rightarrow> sm_paid u registry calls
      | Inr (registry', effects) \<Rightarrow>
          (if sm_sender call = u then coins_paid effects else 0) + sm_paid u registry' calls)"

text \<open>The sum of the amounts of a subscription's payment history.\<close>

definition history_total :: "Subscription \<Rightarrow> nat" where
  "history_total subscription = sum_list (map amount (payment_history subscription))"

text \<open>The users holding a subscription of tier \<open>t\<close>.\<close>

definition tier_users :: "SubscriptionRegistry \<Rightarrow> nat \<Rightarrow> address set" where
  "tier_users registry t =
     {u. \<exists>s. subscriptions registry u = Some s \<and> Subscription.tier s = t}"

text \<open>
  What every reachable subscription registry satisfies: the price table is the initial one,
  every stored tier is a paid tier, \<open>total_spent\<close> is the sum of the payment history, and
  \<open>active_subscriptions\<close> counts the subscriptions of each tier.
\<close>

definition sm_inv :: "SubscriptionRegistry \<Rightarrow> bool" where
  "sm_inv registry \<longleftrightarrow>
     tier_prices registry = [0, 10000000, 50000000, 200000000]
   \<and> length (active_subscriptions registry) = 4
   \<and> finite (dom (subscriptions registry))
   \<and> (\<forall>u s. subscriptions registry u = Some s \<longrightarrow>
          1 \<le> Subscription.tier s \<and> Subscription.tier s \<le> 3 \<and> total_spent s = history_total s)
   \<and> (\<forall>t<4. active_subscriptions registry ! t = card (tier_users registry t))"

text \<open>A concrete run: user 7 subscribes to Starter for 10 USDC, then upgrades to Growth for 40.\<close>

definition demo_subscribed :: "sm_call list" where
  "demo_subscribed = [Subscribe 10000000 1 True 1000 \<lparr> sender = 7, fresh_id = 200 \<rparr>]"

definition demo_upgraded :: "sm_call list" where
  "demo_upgraded = demo_subscribed @ [UpgradeTier 40000000 2 2000 \<lparr> sender = 7, fresh_id = 201 \<rparr>]"

section \<open>Payment processor (module \<open>avenox::payment_processor\<close>)\<close>

definition E_INSUFFICIENT_BALANCE :: nat where "E_INSUFFICIENT_BALANCE = 2001"

text \<open>
  A \<open>Balance<T>\<close> is its value.  \<open>balance::join\<close> adds and aborts on u64 overflow;
  \<open>balance::split\<close> is only called here with an amount the balance holds.
\<close>

record PaymentProcessor =
  treasury_address :: address
  usdc_buffer :: nat
  wal_buffer :: nat
  auto_swap_threshold :: nat
  total_usdc_processed :: nat
  total_wal_distributed :: nat
  slippage_tolerance_bps :: nat
  pool_address :: address

text \<open>The admin capability; the admin functions take it and never read it.\<close>

record ProcessorAdmin =
  admin_id :: ID

datatype pp_effect =
    TransferUSDC nat address                   \<comment> \<open>coin value, recipient\<close>
  | TransferWAL nat address
  | PaymentProcessed address nat string nat      \<comment> \<open>user, usdc_amount, deployment_id, timestamp\<close>
  | SwapExecuted nat nat nat nat                 \<comment> \<open>usdc_amount, wal_received, swap_rate, timestamp\<close>
  | WALTransferred address nat string nat        \<comment> \<open>recipient, amount, purpose, timestamp\<close>

definition init_processor :: PaymentProcessor where
  "init_processor =
     \<lparr> PaymentProcessor.treasury_address = 4660,
       usdc_buffer = 0,
       wal_buffer = 0,
       auto_swap_threshold = 100000000,
       total_usdc_processed = 0,
       total_wal_distributed = 0,
       slippage_tolerance_bps = 300,
       pool_address = 22136 \<rparr>"

definition process_payment ::
  "PaymentProcessor \<Rightarrow> nat \<Rightarrow> nat \<Rightarrow> string \<Rightarrow> nat \<Rightarrow> TxContext
     \<Rightarrow> abort + PaymentProcessor \<times> pp_effect list" where
  "process_payment processor payment expected_wal did clock ctx =
     (let usr = sender ctx;
          usdc_amount = payment
      in
      if usdc_buffer processor + usdc_amount > MAX_U64 then Inl ArithmeticError
      else if total_usdc_processed processor + usdc_amount > MAX_U64 then Inl ArithmeticError
      else
        Inr (processor
               \<lparr> usdc_buffer := usdc_buffer processor + usdc_amount,
                 total_usdc_processed := total_usdc_processed processor + usdc_amount \<rparr>,
             [PaymentProcessed usr usdc_amount did clock]))"

definition simulate_swap ::
  "PaymentProcessor \<Rightarrow> nat \<Rightarrow> nat \<Rightarrow> TxContext \<Rightarrow> abort + PaymentProcessor \<times> pp_effect list" where
  "simulate_swap processor mock_wal clock ctx =
     (let swap_amount = usdc_buffer processor in
      if \<not> swap_amount > 0 then Inl (Abort E_INSUFFICIENT_BALANCE)
      else
        let wal_amount = mock_wal in
        if wal_buffer processor + wal_amount > MAX_U64 then Inl ArithmeticError
        else if wal_amount * 1000000 > MAX_U64 then Inl ArithmeticError
        else
          Inr (processor
                 \<lparr> wal_buffer := wal_buffer processor + wal_amount,
                   usdc_buffer := usdc_buffer processor - swap_amount \<rparr>,
               [TransferUSDC swap_amount (PaymentProcessor.treasury_address processor),
                SwapExecuted swap_amount wal_amount ((wal_amount * 1000000) div swap_amount) clock]))"

definition transfer_wal_to_treasury ::
  "PaymentProcessor \<Rightarrow> ProcessorAdmin \<Rightarrow> nat \<Rightarrow> nat \<Rightarrow> TxContext
     \<Rightarrow> abort + PaymentProcessor \<times> pp_effect list" where
  "transfer_wal_to_treasury processor admin amt clock ctx =
     (if \<not> wal_buffer processor \<ge> amt then Inl (Abort E_INSUFFICIENT_BALANCE)
      else if total_wal_distributed processor + amt > MAX_U64 then Inl ArithmeticError
      else
        Inr (processor
               \<lparr> wal_buffer := wal_buffer processor - amt,
                 total_wal_distributed := total_wal_distributed processor + amt \<rparr>,
             [TransferWAL amt (PaymentProcessor.treasury_address processor),
              WALTransferred (PaymentProcessor.treasury_address processor) amt
                ''deployment_funding'' clock]))"

definition emergency_withdraw_usdc ::
  "PaymentProcessor \<Rightarrow> ProcessorAdmin \<Rightarrow> TxContext \<Rightarrow> abort + PaymentProcessor \<times> pp_effect list" where
  "emergency_withdraw_usdc processor admin ctx =
     (let balance_amount = usdc_buffer processor in
      if \<not> balance_amount > 0 then Inl (Abort E_INSUFFICIENT_BALANCE)
      else
        Inr (processor \<lparr> usdc_buffer := usdc_buffer processor - balance_amount \<rparr>,
             [TransferUSDC balance_amount (sender ctx)]))"

definition update_config ::
  "PaymentProcessor \<Rightarrow> ProcessorAdmin \<Rightarrow> nat \<Rightarrow> nat \<Rightarrow> address \<Rightarrow> TxContext
     \<Rightarrow> abort + PaymentProcessor \<times> pp_effect list" where
  "update_config processor admin new_threshold new_slippage new_treasury ctx =
     Inr (processor
            \<lparr> auto_swap_threshold := new_threshold,
              slippage_tolerance_bps := new_slippage,
              PaymentProcessor.treasury_address := new_treasury \<rparr>,
          [])"

text \<open>
  The loop of \<open>batch_process_payments\<close>: it pops the last coin while the counter \<open>i\<close> is
  below the current length of \<open>payments\<close>, which shrinks as \<open>i\<close> grows.  The state is the
  counter, the remaining coins, \<open>total_amount\<close>, the buffer and the events so far.
\<close>

function batch_loop ::
  "address \<Rightarrow> nat \<Rightarrow> string list \<Rightarrow> nat \<Rightarrow> nat list \<Rightarrow> nat \<Rightarrow> nat \<Rightarrow> pp_effect list
     \<Rightarrow> abort + nat list \<times> nat \<times> nat \<times> pp_effect list" where
  "batch_loop usr clock deployment_ids i payments total_amount buffer events =
     (if i < length payments then
        (let payment = last payments;
             payments1 = butlast payments;
             amt = payment
         in
         if total_amount + amt > MAX_U64 then Inl ArithmeticError
         else if buffer + amt > MAX_U64 then Inl ArithmeticError
         else if \<not> i < length deployment_ids then Inl IndexOutOfBounds
         else
           batch_loop usr clock deployment_ids (i + 1) payments1 (total_amount + amt) (buffer + amt)
             (events @ [PaymentProcessed usr amt (deployment_ids ! i) clock]))
      else Inr (payments, total_amount, buffer, events))"
  by pat_completeness auto
termination
  by (relation "measure (\<lambda>(usr, clock, deployment_ids, i, payments, total_amount, buffer, events).
                           length payments - i)") auto

definition batch_process_payments ::
  "PaymentProcessor \<Rightarrow> nat list \<Rightarrow> string list \<Rightarrow> nat \<Rightarrow> TxContext
     \<Rightarrow> abort + PaymentProcessor \<times> pp_effect list" where
  "batch_process_payments processor payments deployment_ids clock ctx =
     (let usr = sender ctx in
      case batch_loop usr clock deployment_ids 0 payments 0 (usdc_buffer processor) [] of
        Inl e \<Rightarrow> Inl e
      | Inr (payments1, total_amount, buffer, events) \<Rightarrow>
          if total_usdc_processed processor + total_amount > MAX_U64 then Inl ArithmeticError
          else if payments1 \<noteq> [] then Inl VectorNotEmpty
          else
            Inr (processor
                   \<lparr> usdc_buffer := buffer,
                     total_usdc_processed := total_usdc_processed processor + total_amount \<rparr>,
                 events))"

definition get_processor_stats :: "PaymentProcessor \<Rightarrow> nat \<times> nat \<times> nat \<times> nat" where
  "get_processor_stats processor =
     (total_usdc_processed processor, total_wal_distributed processor,
      usdc_buffer processor, wal_buffer processor)"

text \<open>
  The entry functions as transactions on the shared processor.  \<open>pp_trace\<close> collects the
  effects of the committed transactions in order.
\<close>

datatype pp_call =
    ProcessPayment nat nat string nat TxContext
  | SimulateSwap nat nat TxContext
  | TransferWalToTreasury ProcessorAdmin nat nat TxContext
  | EmergencyWithdrawUsdc ProcessorAdmin TxContext
  | UpdateConfig ProcessorAdmin nat nat address TxContext
  | BatchProcessPayments "nat list" "string list" nat TxContext

fun pp_exec :: "PaymentProcessor \<Rightarrow> pp_call \<Rightarrow> abort + PaymentProcessor \<times> pp_effect list" where
  "pp_exec processor (ProcessPayment payment expected_wal did clock ctx) =
     process_payment processor payment expected_wal did clock ctx"
| "pp_exec processor (SimulateSwap mock_wal clock ctx) = simulate_swap processor mock_wal clock ctx"
| "pp_exec processor (TransferWalToTreasury admin amt clock ctx) =
     transfer_wal_to_treasury processor admin amt clock ctx"
| "pp_exec processor (EmergencyWithdrawUsdc admin ctx) = emergency_withdraw_usdc processor admin ctx"
| "pp_exec processor (UpdateConfig admin new_threshold new_slippage new_treasury ctx) =
     update_config processor admin new_threshold new_slippage new_treasury ctx"
| "pp_exec processor (BatchProcessPayments payments deployment_ids clock ctx) =
     batch_process_payments processor payments deployment_ids clock ctx"

definition pp_commit :: "PaymentProcessor \<Rightarrow> pp_call \<Rightarrow> PaymentProcessor" where
  "pp_commit processor call =
     (case pp_exec processor call of Inl e \<Rightarrow> processor | Inr (processor', effects) \<Rightarrow> processor')"

fun pp_run :: "PaymentProcessor \<Rightarrow> pp_call list \<Rightarrow> PaymentProcessor" where
  "pp_run processor [] = processor"
| "pp_run processor (call # calls) = pp_run (pp_commit processor call) calls"

fun pp_trace :: "PaymentProcessor \<Rightarrow> pp_call list \<Rightarrow> pp_effect list" where
  "pp_trace processor [] = []"
| "pp_trace processor (call # calls) =
     (case pp_exec processor call of
        Inl e \<Rightarrow> pp_trace processor calls
      | Inr (processor', effects) \<Rightarrow> effects @ pp_trace processor' calls)"

text \<open>
  The sum the specification writes, \<open>sum(transfersOut)\<close>: the amounts of the committed
  \<open>transferOut\<close> operations, which in the module is \<open>transfer_wal_to_treasury\<close>, the only
  function that takes an amount and fails beyond the output-token buffer.
\<close>

fun transfersOut :: "pp_effect list \<Rightarrow> nat" where
  "transfersOut [] = 0"
| "transfersOut (TransferWAL v recipient # effects) = v + transfersOut effects"
| "transfersOut (effect # effects) = transfersOut effects"

text \<open>
  What the code keeps instead: the USDC coins taken out of the USDC buffer, by
  \<open>simulate_swap\<close> and by \<open>emergency_withdraw_usdc\<close>.
\<close>

fun usdc_transferred_out :: "pp_effect list \<Rightarrow> nat" where
  "usdc_transferred_out [] = 0"
| "usdc_transferred_out (TransferUSDC v recipient # effects) = v + usdc_transferred_out effects"
| "usdc_transferred_out (effect # effects) = usdc_transferred_out effects"

text \<open>Every coin that left the processor, of either token.\<close>

definition all_transferred_out :: "pp_effect list \<Rightarrow> nat" where
  "all_transferred_out effects = usdc_transferred_out effects + transfersOut effects"

text \<open>
  Concrete runs.  \<open>demo_swap\<close>: one payment and a swap that empties the USDC buffer;
  \<open>demo_swapped\<close>: the same, then the WAL received is transferred out.  \<open>demo_payments\<close>: two
  payments, a swap, a transfer of part of the WAL, and a third payment.
\<close>

definition demo_swap :: "pp_call list" where
  "demo_swap =
     [ProcessPayment 5000000 0 ''d1'' 1000 \<lparr> sender = 7, fresh_id = 300 \<rparr>,
      SimulateSwap 50 2000 \<lparr> sender = 9, fresh_id = 301 \<rparr>]"

definition demo_swapped :: "pp_call list" where
  "demo_swapped =
     demo_swap @ [TransferWalToTreasury \<lparr> admin_id = 1 \<rparr> 50 3000 \<lparr> sender = 9, fresh_id = 302 \<rparr>]"

definition demo_payments :: "pp_call list" where
  "demo_payments =
     [ProcessPayment 5000000 0 ''d1'' 1000 \<lparr> sender = 7, fresh_id = 300 \<rparr>,
      ProcessPayment 7000000 0 ''d2'' 2000 \<lparr> sender = 8, fresh_id = 301 \<rparr>,
      SimulateSwap 90 3000 \<lparr> sender = 9, fresh_id = 302 \<rparr>,
      TransferWalToTreasury \<lparr> admin_id = 1 \<rparr> 40 3500 \<lparr> sender = 9, fresh_id = 304 \<rparr>,
      ProcessPayment 1000000 0 ''d3'' 4000 \<lparr> sender = 7, fresh_id = 303 \<rparr>]"

section \<open>Client orchestrator (hook \<open>useDeployment\<close>, \<open>deployWithContract\<close>)\<close>

text \<open>
  The TypeScript client.  A \<open>bigint\<close> is an \<open>int\<close>; bigint division truncates towards zero.
\<close>

definition bigint_div :: "int \<Rightarrow> int \<Rightarrow> int" where
  "bigint_div a b = sgn a * sgn b * (\<bar>a\<bar> div \<bar>b\<bar>)"

definition MIN_PAYMENT_USDC :: int where "MIN_PAYMENT_USDC = 5000000"

definition calculateDeploymentCost :: "int \<Rightarrow> int" where
  "calculateDeploymentCost estimatedWal =
     (let baseCost = MIN_PAYMENT_USDC;
          walCost = bigint_div (estimatedWal * 10000) 1000000
      in baseCost + walCost)"

datatype deploymentStatus = Idle | Checking | Signing | Processing | Confirming | Success | Failed

record DeploymentState =
  isDeploying :: bool
  deploymentStatus :: deploymentStatus
  transactionDigest :: "string option"
  deploymentId :: "string option"
  error :: "string option"
  usdcBalance :: "string option"
  requiredUSDC :: "string option"

text \<open>The request of the client (\<open>DeploymentRequest\<close> in \<open>types/contracts.ts\<close>).\<close>

record ClientDeploymentRequest =
  repoUrl :: string
  branch :: string
  commitHash :: string
  buildCommand :: string
  outputDir :: string
  estimatedWal :: int
  environment :: string

record DeploymentResult =
  success :: bool
  deploymentId :: string
  error :: "string option"
  transactionDigest :: string

record CoinBalance =
  totalBalance :: string

datatype txStatus = TxPending | TxProcessing | TxSuccess | TxFailed

text \<open>
  What the hook gets from outside: the connected account, the reply of \<open>usdc.getBalance\<close>
  (\<open>None\<close> is \<open>null\<close>, which it returns when the query throws), the result of
  \<open>deployWithPayment\<close> (which catches its own exceptions and is the only place that signs and
  submits a transaction), whether the wallet's \<open>onSuccess\<close> callback ran, and the status that
  the \<open>n\<close>-th poll of \<open>trackTransaction\<close> reports.  Two JavaScript built-ins are parameters:
  \<open>BigInt\<close> on a string (\<open>Inl\<close> the message of the SyntaxError it throws), and \<open>toFixed2\<close>,
  the floating-point text \<open>(Number(v) / 1_000_000).toFixed(2)\<close>.
\<close>

record ClientEnv =
  account :: "string option"
  getBalance :: "CoinBalance option"
  deployWithPayment :: DeploymentResult
  onSuccess :: bool
  trackTransaction :: "nat \<Rightarrow> txStatus"
  BigInt :: "string \<Rightarrow> string + int"
  toFixed2 :: "int \<Rightarrow> string"

datatype client_call =
    GetBalance string
  | DeployWithPayment ClientDeploymentRequest string
  | WaitForTransaction string

definition formatUSDC :: "ClientEnv \<Rightarrow> int \<Rightarrow> string" where
  "formatUSDC env v = ''$'' @ toFixed2 env v"

function waitForTransaction_loop :: "(nat \<Rightarrow> txStatus) \<Rightarrow> nat \<Rightarrow> nat \<Rightarrow> bool" where
  "waitForTransaction_loop track maxRetries i =
     (if i < maxRetries then
        (let st = track i in
         if st = TxSuccess then True
         else if st = TxFailed then False
         else waitForTransaction_loop track maxRetries (i + 1))
      else False)"
  by pat_completeness auto
termination
  by (relation "measure (\<lambda>(track, maxRetries, i). maxRetries - i)") auto

definition waitForTransaction :: "ClientEnv \<Rightarrow> bool" where
  "waitForTransaction env = waitForTransaction_loop (trackTransaction env) 30 0"

definition failure :: "string \<Rightarrow> DeploymentResult" where
  "failure msg =
     \<lparr> success = False, DeploymentResult.deploymentId = [],
       DeploymentResult.error = Some msg, DeploymentResult.transactionDigest = [] \<rparr>"

text \<open>
  \<open>deployWithContract\<close> returns the states it sets, in order (each \<open>setState\<close> applied to the
  previous state), the result it resolves to, and the calls it made to the contract service.
  An exception inside the \<open>try\<close> block goes to the \<open>catch\<close>, which sets the failed state with
  the exception's message.  The second \<open>setState\<close> is given an updater function, and the
  \<open>BigInt\<close> conversion of \<open>usdc.formatUSDC\<close> runs inside it: when that conversion throws,
  it throws where React applies the updater, outside the \<open>try\<close>, so neither that state nor any
  queued after it is ever set, and the checking state is the last one.  The hook itself goes
  on to its own \<open>BigInt\<close> conversion in the balance check, which throws the same error inside
  the \<open>try\<close>, and the \<open>catch\<close> returns the failure.
\<close>

definition deployWithContract ::
  "ClientEnv \<Rightarrow> DeploymentState \<Rightarrow> ClientDeploymentRequest
     \<Rightarrow> DeploymentState list \<times> DeploymentResult \<times> client_call list" where
  "deployWithContract env prev request =
     (case account env of
        None \<Rightarrow>
          ([prev \<lparr> DeploymentState.error := Some ''Please connect your wallet first'' \<rparr>],
           failure ''Wallet not connected'', [])
      | Some address \<Rightarrow>
          let s1 = \<lparr> isDeploying = True, deploymentStatus = Checking,
                     DeploymentState.transactionDigest = None,
                     DeploymentState.deploymentId = None,
                     DeploymentState.error = None, usdcBalance = None, requiredUSDC = None \<rparr>;
              requiredAmount = calculateDeploymentCost (estimatedWal request);
              reply = getBalance env;
              caught = (\<lambda>states msg calls.
                          (states @ [(last states) \<lparr> isDeploying := False, deploymentStatus := Failed,
                                                     DeploymentState.error := Some msg \<rparr>],
                           failure msg, calls))
          in
          (case (case reply of
                  None \<Rightarrow> Inr ''$0.00''
                | Some b \<Rightarrow>
                    (case BigInt env (totalBalance b) of
                       Inl msg \<Rightarrow> Inl msg
                     | Inr v \<Rightarrow> Inr (formatUSDC env v)))
          of
            Inl msg \<Rightarrow> ([s1], failure msg, [GetBalance address])
          | Inr shown \<Rightarrow>
              let s2 = s1 \<lparr> deploymentStatus := Checking,
                            requiredUSDC := Some (formatUSDC env requiredAmount),
                            usdcBalance := Some shown \<rparr>
              in
              (case (case reply of
                      None \<Rightarrow> Inr True
                    | Some b \<Rightarrow>
                        (case BigInt env (totalBalance b) of
                           Inl msg \<Rightarrow> Inl msg
                         | Inr v \<Rightarrow> Inr (v < requiredAmount)))
              of
                Inl msg \<Rightarrow> caught [s1, s2] msg [GetBalance address]
              | Inr True \<Rightarrow>
                  let err = ''Insufficient USDC. Required: '' @ formatUSDC env requiredAmount in
                  ([s1, s2,
                    s2 \<lparr> isDeploying := False, deploymentStatus := Failed,
                         DeploymentState.error := Some err \<rparr>],
                   failure err, [GetBalance address])
              | Inr False \<Rightarrow>
                  let s3 = s2 \<lparr> deploymentStatus := Signing \<rparr>;
                      result = deployWithPayment env;
                      signed = (if onSuccess env then [s3 \<lparr> deploymentStatus := Processing \<rparr>] else []);
                      s4 = last (s3 # signed)
                  in
                  if success result then
                    let s5 = s4 \<lparr> deploymentStatus := Confirming,
                                  DeploymentState.transactionDigest :=
                                    Some (DeploymentResult.transactionDigest result),
                                  DeploymentState.deploymentId :=
                                    Some (DeploymentResult.deploymentId result) \<rparr>;
                        confirmed = waitForTransaction env;
                        s6 = s5 \<lparr> isDeploying := False,
                                  deploymentStatus := (if confirmed then Success else Failed),
                                  DeploymentState.error :=
                                    (if confirmed then None else Some ''Transaction failed to confirm'') \<rparr>
                    in
                    ([s1, s2, s3] @ signed @ [s5, s6], result,
                     [GetBalance address, DeployWithPayment request address,
                      WaitForTransaction (DeploymentResult.transactionDigest result)])
                  else
                    ([s1, s2, s3] @ signed
                       @ [s4 \<lparr> isDeploying := False, deploymentStatus := Failed,
                                DeploymentState.error := DeploymentResult.error result \<rparr>],
                     result,
                     [GetBalance address, DeployWithPayment request address]))))"

text \<open>The scenario of the specification: no estimated units, a balance of 3 USDC.\<close>

definition demo_env :: ClientEnv where
  "demo_env =
     \<lparr> account = Some ''0xabc'',
       getBalance = Some \<lparr> totalBalance = ''3000000'' \<rparr>,
       deployWithPayment = failure ''unused'',
       onSuccess = False,
       trackTransaction = (\<lambda>n. TxPending),
       BigInt = (\<lambda>s. if s = ''3000000'' then Inr 3000000 else Inl ''Cannot convert to a BigInt''),
       toFixed2 = (\<lambda>v. if v = 5000000 then ''5.00'' else if v = 3000000 then ''3.00'' else ''0.00'') \<rparr>"

definition demo_request :: ClientDeploymentRequest where
  "demo_request =
     \<lparr> repoUrl = ''repo'', ClientDeploymentRequest.branch = ''main'', commitHash = ''c0ffee'',
       buildCommand = ''make'', outputDir = ''out'', estimatedWal = 0,
       ClientDeploymentRequest.environment = ''prod'' \<rparr>"

definition idle_state :: DeploymentState where
  "idle_state =
     \<lparr> isDeploying = False, deploymentStatus = Idle, DeploymentState.transactionDigest = None,
       DeploymentState.deploymentId = None, DeploymentState.error = None,
       usdcBalance = None, requiredUSDC = None \<rparr>"

section \<open>Deployment registry: proofs\<close>

lemma get_next_version_loop_count:
  "get_next_version_loop reg url ids ver i = Inr v \<Longrightarrow>
   v = ver + length (filter (\<lambda>j. \<exists>d. deployments reg j = Some d \<and> DeploymentRecord.repo_url d = url)
                            (drop i ids))"
proof (induction reg url ids ver i rule: get_next_version_loop.induct)
  case (1 registry url ids ver i)
  show ?case
  proof (cases "i < length ids")
    case False
    with "1.prems" show ?thesis by simp
  next
    case True
    then have dr: "drop i ids = ids ! i # drop (i + 1) ids"
      by (simp add: Cons_nth_drop_Suc)
    from True "1.prems" obtain d where d: "deployments registry (ids ! i) = Some d"
      by (cases "deployments registry (ids ! i)") auto
    show ?thesis
    proof (cases "DeploymentRecord.repo_url d = url")
      case same: True
      with True d "1.prems" have nov: "\<not> ver + 1 > MAX_U64"
        by (auto split: if_splits)
      with True d same "1.prems"
      have "get_next_version_loop registry url ids (ver + 1) (i + 1) = Inr v" by simp
      from "1.IH"(1) [OF True d same nov this] show ?thesis
        using d same by (simp add: dr)
    next
      case diff: False
      with True d "1.prems"
      have "get_next_version_loop registry url ids ver (i + 1) = Inr v" by simp
      from "1.IH"(2) [OF True d diff this] show ?thesis
        using d diff by (simp add: dr)
    qed
  qed
qed

lemma request_deployment_Inr:
  assumes "request_deployment reg pay url br commit bc od ew env clock ctx = Inr (reg', effs)"
  shows "\<exists>r ver. min_payment_usdc reg \<le> pay
           \<and> deployments reg (fresh_id ctx) = None
           \<and> get_next_version reg url (sender ctx) = Inr ver
           \<and> deployments reg' (fresh_id ctx) = Some r
           \<and> deployments reg' = (deployments reg)(fresh_id ctx \<mapsto> r)
           \<and> user_deployments reg' =
               (user_deployments reg)(sender ctx \<mapsto> get_user_deployments reg (sender ctx) @ [fresh_id ctx])
           \<and> DeploymentRecord.user r = sender ctx
           \<and> DeploymentRecord.repo_url r = url
           \<and> version r = ver
           \<and> status r = STATUS_PENDING
           \<and> DeploymentRecord.usdc_paid r = pay"
  using assms
  by (auto simp: request_deployment_def Let_def get_user_deployments_def
           split: if_splits sum.splits option.splits)

lemma request_rollback_deployment_Inr:
  assumes "request_rollback_deployment reg pay pid clock ctx = Inr (reg', effs)"
  shows "\<exists>r parent ids. deployments reg pid = Some parent
           \<and> DeploymentRecord.user parent = sender ctx
           \<and> deployments reg (fresh_id ctx) = None
           \<and> user_deployments reg (sender ctx) = Some ids
           \<and> deployments reg' (fresh_id ctx) = Some r
           \<and> deployments reg' = (deployments reg)(fresh_id ctx \<mapsto> r)
           \<and> user_deployments reg' = (user_deployments reg)(sender ctx \<mapsto> ids @ [fresh_id ctx])
           \<and> DeploymentRecord.user r = sender ctx
           \<and> DeploymentRecord.repo_url r = DeploymentRecord.repo_url parent
           \<and> version r = version parent
           \<and> status r = STATUS_PENDING
           \<and> DeploymentRecord.usdc_paid r = pay"
  using assms
  by (auto simp: request_rollback_deployment_def Let_def
           split: if_splits sum.splits option.splits)

lemma mark_processing_Inr:
  assumes "mark_processing reg proc did ctx = Inr (reg', effs)"
  shows "\<exists>d. deployments reg did = Some d \<and> status d = STATUS_PENDING
           \<and> deployments reg' = (deployments reg)(did \<mapsto> d\<lparr>status := STATUS_PROCESSING\<rparr>)
           \<and> user_deployments reg' = user_deployments reg"
  using assms
  by (auto simp: mark_processing_def split: if_splits option.splits)

lemma mark_deployed_Inr:
  assumes "mark_deployed reg proc did site w clock ctx = Inr (reg', effs)"
  shows "\<exists>d d'. deployments reg did = Some d \<and> status d = STATUS_PROCESSING
           \<and> deployments reg' did = Some d'
           \<and> deployments reg' = (deployments reg)(did \<mapsto> d')
           \<and> status d' = STATUS_DEPLOYED
           \<and> DeploymentRecord.user d' = DeploymentRecord.user d
           \<and> DeploymentRecord.repo_url d' = DeploymentRecord.repo_url d
           \<and> version d' = version d
           \<and> user_deployments reg' = user_deployments reg"
  using assms
  by (auto simp: mark_deployed_def split: if_splits option.splits)

lemma mark_failed_Inr:
  assumes "mark_failed reg proc did msg clock ctx = Inr (reg', effs)"
  shows "\<exists>d d'. deployments reg did = Some d
           \<and> deployments reg' did = Some d'
           \<and> deployments reg' = (deployments reg)(did \<mapsto> d')
           \<and> status d' = STATUS_FAILED
           \<and> DeploymentRecord.user d' = DeploymentRecord.user d
           \<and> DeploymentRecord.repo_url d' = DeploymentRecord.repo_url d
           \<and> version d' = version d
           \<and> user_deployments reg' = user_deployments reg"
  using assms
  by (auto simp: mark_failed_def split: if_splits option.splits)

lemma registry_inv_init: "registry_inv init_registry"
  by (simp add: registry_inv_def init_registry_def)

lemma registry_inv_add:
  assumes inv: "registry_inv reg"
    and fresh: "deployments reg n = None"
    and D: "deployments reg' = (deployments reg)(n \<mapsto> r)"
    and U: "user_deployments reg' = (user_deployments reg)(s \<mapsto> get_user_deployments reg s @ [n])"
    and r: "DeploymentRecord.user r = s"
  shows "registry_inv reg'"
proof -
  let ?own = "\<lambda>g u. {i. \<exists>d. deployments g i = Some d \<and> DeploymentRecord.user d = u}"
  have own_s: "?own reg' s = insert n (?own reg s)"
    using fresh r by (auto simp: D)
  have own_other: "?own reg' u = ?own reg u" if "u \<noteq> s" for u
    using fresh r that by (auto simp: D)
  have old: "distinct (get_user_deployments reg s) \<and> set (get_user_deployments reg s) = ?own reg s"
  proof (cases "user_deployments reg s")
    case None
    with inv have "?own reg s = {}" unfolding registry_inv_def by fastforce
    with None show ?thesis by (simp add: get_user_deployments_def)
  next
    case (Some ids)
    with inv show ?thesis by (simp add: registry_inv_def get_user_deployments_def)
  qed
  have notin: "n \<notin> ?own reg s" using fresh by auto
  have part1: "distinct ids \<and> set ids = ?own reg' u" if "user_deployments reg' u = Some ids" for u ids
  proof (cases "u = s")
    case True
    with that have "ids = get_user_deployments reg s @ [n]" by (simp add: U)
    with old notin own_s True show ?thesis by auto
  next
    case False
    with that have "user_deployments reg u = Some ids" by (simp add: U)
    with inv own_other [OF False] show ?thesis by (simp add: registry_inv_def)
  qed
  have part2: "user_deployments reg' (DeploymentRecord.user d) \<noteq> None" if "deployments reg' i = Some d" for i d
  proof (cases "i = n")
    case True
    with that r show ?thesis by (simp add: D U)
  next
    case False
    with that have "deployments reg i = Some d" by (simp add: D)
    with inv have "user_deployments reg (DeploymentRecord.user d) \<noteq> None"
      by (simp add: registry_inv_def)
    then show ?thesis by (simp add: U)
  qed
  from part1 part2 show ?thesis unfolding registry_inv_def by blast
qed

lemma registry_inv_update:
  assumes inv: "registry_inv reg"
    and old: "deployments reg k = Some d"
    and D: "deployments reg' = (deployments reg)(k \<mapsto> d')"
    and U: "user_deployments reg' = user_deployments reg"
    and same: "DeploymentRecord.user d' = DeploymentRecord.user d"
  shows "registry_inv reg'"
proof -
  have own: "{i. \<exists>x. deployments reg' i = Some x \<and> DeploymentRecord.user x = u}
           = {i. \<exists>x. deployments reg i = Some x \<and> DeploymentRecord.user x = u}" for u
    using old same by (auto simp: D)
  have part2: "user_deployments reg' (DeploymentRecord.user x) \<noteq> None" if "deployments reg' i = Some x" for i x
  proof (cases "i = k")
    case True
    with that have "x = d'" by (simp add: D)
    with inv old same show ?thesis by (simp add: registry_inv_def U)
  next
    case False
    with that have "deployments reg i = Some x" by (simp add: D)
    with inv show ?thesis by (simp add: registry_inv_def U)
  qed
  from inv have "\<forall>u ids. user_deployments reg' u = Some ids \<longrightarrow>
      distinct ids \<and> set ids = {i. \<exists>x. deployments reg' i = Some x \<and> DeploymentRecord.user x = u}"
    unfolding own U registry_inv_def by blast
  with part2 show ?thesis unfolding registry_inv_def by blast
qed

lemma registry_inv_exec:
  assumes inv: "registry_inv reg" and ex: "dr_exec reg call = Inr (reg', effs)"
  shows "registry_inv reg'"
proof (cases call)
  case (RequestDeployment pay url br commit bc od ew env clock ctx)
  with ex have "request_deployment reg pay url br commit bc od ew env clock ctx = Inr (reg', effs)"
    by simp
  from request_deployment_Inr [OF this] inv show ?thesis
    by (blast intro: registry_inv_add)
next
  case (MarkProcessing proc did ctx)
  with ex have "mark_processing reg proc did ctx = Inr (reg', effs)" by simp
  from mark_processing_Inr [OF this] obtain d where
    "deployments reg did = Some d"
    "deployments reg' = (deployments reg)(did \<mapsto> d\<lparr>status := STATUS_PROCESSING\<rparr>)"
    "user_deployments reg' = user_deployments reg" by blast
  with inv show ?thesis by (auto intro: registry_inv_update)
next
  case (MarkDeployed proc did site w clock ctx)
  with ex have "mark_deployed reg proc did site w clock ctx = Inr (reg', effs)" by simp
  from mark_deployed_Inr [OF this] inv show ?thesis
    by (blast intro: registry_inv_update)
next
  case (MarkFailed proc did msg clock ctx)
  with ex have "mark_failed reg proc did msg clock ctx = Inr (reg', effs)" by simp
  from mark_failed_Inr [OF this] inv show ?thesis
    by (blast intro: registry_inv_update)
next
  case (RequestRollback pay pid clock ctx)
  with ex have "request_rollback_deployment reg pay pid clock ctx = Inr (reg', effs)" by simp
  from request_rollback_deployment_Inr [OF this] obtain r parent ids where f:
    "deployments reg pid = Some parent"
    "deployments reg (fresh_id ctx) = None"
    "user_deployments reg (sender ctx) = Some ids"
    "deployments reg' = (deployments reg)(fresh_id ctx \<mapsto> r)"
    "user_deployments reg' = (user_deployments reg)(sender ctx \<mapsto> ids @ [fresh_id ctx])"
    "DeploymentRecord.user r = sender ctx" by blast
  then have "user_deployments reg' =
      (user_deployments reg)(sender ctx \<mapsto> get_user_deployments reg (sender ctx) @ [fresh_id ctx])"
    by (simp add: get_user_deployments_def)
  with inv f show ?thesis by (blast intro: registry_inv_add)
qed

lemma registry_inv_commit: "registry_inv reg \<Longrightarrow> registry_inv (dr_commit reg call)"
  by (auto simp: dr_commit_def split: sum.splits dest: registry_inv_exec)

lemma registry_inv_run: "registry_inv reg \<Longrightarrow> registry_inv (dr_run reg calls)"
  by (induction calls arbitrary: reg) (simp_all add: registry_inv_commit)

lemmas demo_simps =
  demo_ctx_def demo_deploy_def demo_deployed_def dr_commit_def request_deployment_def
  request_rollback_deployment_def mark_processing_def mark_deployed_def mark_failed_def
  init_registry_def init_deployment_processor_def valid_utf8_def cont_byte_def
  get_next_version_def get_user_deployments_def status_of_def MAX_U64_def Let_def
  STATUS_PENDING_def STATUS_PROCESSING_def STATUS_DEPLOYED_def STATUS_FAILED_def
  E_INSUFFICIENT_PAYMENT_def E_INVALID_STATUS_def E_UNAUTHORIZED_def EINVALID_UTF8_def

lemma get_user_deployments_exec:
  assumes "dr_exec reg call = Inr (reg', effs)"
  shows "get_user_deployments reg' u =
         get_user_deployments reg u @ map snd (filter (\<lambda>p. fst p = u) (creates call))"
proof (cases call)
  case (RequestDeployment pay url br commit bc od ew env clock ctx)
  with assms have "request_deployment reg pay url br commit bc od ew env clock ctx = Inr (reg', effs)"
    by simp
  from request_deployment_Inr [OF this] show ?thesis
    by (auto simp: RequestDeployment get_user_deployments_def)
next
  case (MarkProcessing proc did ctx)
  with assms have "mark_processing reg proc did ctx = Inr (reg', effs)" by simp
  from mark_processing_Inr [OF this] show ?thesis
    by (auto simp: MarkProcessing get_user_deployments_def)
next
  case (MarkDeployed proc did site w clock ctx)
  with assms have "mark_deployed reg proc did site w clock ctx = Inr (reg', effs)" by simp
  from mark_deployed_Inr [OF this] show ?thesis
    by (auto simp: MarkDeployed get_user_deployments_def)
next
  case (MarkFailed proc did msg clock ctx)
  with assms have "mark_failed reg proc did msg clock ctx = Inr (reg', effs)" by simp
  from mark_failed_Inr [OF this] show ?thesis
    by (auto simp: MarkFailed get_user_deployments_def)
next
  case (RequestRollback pay pid clock ctx)
  with assms have "request_rollback_deployment reg pay pid clock ctx = Inr (reg', effs)" by simp
  from request_rollback_deployment_Inr [OF this] show ?thesis
    by (auto simp: RequestRollback get_user_deployments_def)
qed

lemma get_user_deployments_run:
  "get_user_deployments (dr_run reg calls) u =
   get_user_deployments reg u @ map snd (filter (\<lambda>p. fst p = u) (dr_created reg calls))"
proof (induction calls arbitrary: reg)
  case Nil
  show ?case by simp
next
  case (Cons call calls)
  show ?case
  proof (cases "dr_exec reg call")
    case (Inl e)
    then have "dr_commit reg call = reg" by (simp add: dr_commit_def)
    with Inl Cons.IH [of reg] show ?thesis by simp
  next
    case (Inr res)
    obtain reg' effs where res: "res = (reg', effs)" by (cases res)
    with Inr have c: "dr_commit reg call = reg'" by (simp add: dr_commit_def)
    from Inr res have "dr_exec reg call = Inr (reg', effs)" by simp
    from get_user_deployments_exec [OF this, of u] Cons.IH [of reg'] Inr res c
    show ?thesis by simp
  qed
qed

lemma get_next_version_count:
  assumes inv: "registry_inv reg" and v: "get_next_version reg url u = Inr ver"
  shows "ver = 1 + card {i. \<exists>d. deployments reg i = Some d \<and> DeploymentRecord.user d = u
                              \<and> DeploymentRecord.repo_url d = url}"
proof (cases "user_deployments reg u")
  case None
  with inv have "{i. \<exists>d. deployments reg i = Some d \<and> DeploymentRecord.user d = u} = {}"
    unfolding registry_inv_def by fastforce
  then have "{i. \<exists>d. deployments reg i = Some d \<and> DeploymentRecord.user d = u
                    \<and> DeploymentRecord.repo_url d = url} = {}" by blast
  then have "card {i. \<exists>d. deployments reg i = Some d \<and> DeploymentRecord.user d = u
                    \<and> DeploymentRecord.repo_url d = url} = 0" by (simp only: card.empty)
  moreover from None v have "ver = 1" by (simp add: get_next_version_def)
  ultimately show ?thesis by (simp only:)
next
  case (Some ids)
  let ?P = "\<lambda>j. \<exists>d. deployments reg j = Some d \<and> DeploymentRecord.repo_url d = url"
  from inv Some have d: "distinct ids"
    and s: "set ids = {i. \<exists>d. deployments reg i = Some d \<and> DeploymentRecord.user d = u}"
    by (simp_all add: registry_inv_def)
  from Some v have "get_next_version_loop reg url ids 1 0 = Inr ver"
    by (simp add: get_next_version_def)
  from get_next_version_loop_count [OF this] have "ver = 1 + length (filter ?P ids)" by simp
  also from d have "length (filter ?P ids) = card (set (filter ?P ids))"
    by (rule distinct_card [OF distinct_filter, symmetric])
  also have "set (filter ?P ids) = {i. \<exists>d. deployments reg i = Some d \<and> DeploymentRecord.user d = u
                              \<and> DeploymentRecord.repo_url d = url}"
    using s by auto
  finally show ?thesis .
qed

lemma mark_processing_requires_pending:
  "deployments reg did = Some d \<Longrightarrow> status d \<noteq> STATUS_PENDING \<Longrightarrow>
   mark_processing reg proc did ctx = Inl (Abort E_INVALID_STATUS)"
  by (simp add: mark_processing_def)

lemma mark_deployed_requires_processing:
  "deployments reg did = Some d \<Longrightarrow> status d \<noteq> STATUS_PROCESSING \<Longrightarrow>
   mark_deployed reg proc did site w clock ctx = Inl (Abort E_INVALID_STATUS)"
  by (simp add: mark_deployed_def)

text \<open>
  C1.  The claim: the status moves only along Pending, Processing, then Deployed or Failed;
  \<open>mark_failed\<close> fails unless the status is Processing, and no transition succeeds on a
  Deployed or Failed record.  \<open>mark_processing\<close> and \<open>mark_deployed\<close> check the status
  (the two lemmas above), \<open>mark_failed\<close> does not: on the record of the run below, which is
  Deployed, it commits and the status becomes Failed, and on a record still Pending it commits
  as well.
\<close>

theorem mark_failed_after_deployed:
  "status_of (dr_run init_registry demo_deployed) 100 = Some STATUS_DEPLOYED
   \<and> status_of (dr_run init_registry
        (demo_deployed @ [MarkFailed init_deployment_processor 100 ''late'' 3000 (demo_ctx 0)])) 100
       = Some STATUS_FAILED
   \<and> status_of (dr_run init_registry
        [demo_deploy 1000 100, MarkFailed init_deployment_processor 100 ''early'' 3000 (demo_ctx 0)]) 100
       = Some STATUS_FAILED"
  by (simp add: demo_simps)

text \<open>
  C3.  The claim: \<open>request_rollback_deployment\<close> with a payment below \<open>min_payment_usdc\<close>
  fails with \<open>E_INSUFFICIENT_PAYMENT\<close> and creates no record.  The function never compares the
  payment with the minimum: with a payment of 0 against a minimum of 5000000, the rollback of
  deployment 100 commits, the record 101 is stored with \<open>usdc_paid = 0\<close>, and it is appended
  to the user's list.
\<close>

theorem rollback_below_minimum_accepted:
  "min_payment_usdc (dr_run init_registry demo_deployed) = 5000000
   \<and> map_option DeploymentRecord.usdc_paid
        (deployments (dr_run init_registry (demo_deployed @ [RequestRollback 0 100 3000 (demo_ctx 101)])) 101)
       = Some 0
   \<and> get_user_deployments
        (dr_run init_registry (demo_deployed @ [RequestRollback 0 100 3000 (demo_ctx 101)])) 7
       = [100, 101]"
  by (simp add: demo_simps)

text \<open>
  C2, as stated, fails: the version is claimed to increase by 1 with each successful
  \<open>request_deployment\<close> or \<open>request_rollback_deployment\<close> of a (user, repo) pair.  After one
  deployment of \<open>''repo''\<close> by user 7 (version 1), the rollback of it by the same user
  commits and stores, for the same user and repo, a second record (id 101) with version 1 again.
\<close>

theorem rollback_version_counterexample:
  "map_option version (deployments (dr_run init_registry
       (demo_deployed @ [RequestRollback 5000000 100 3000 (demo_ctx 101)])) 100) = Some 1
   \<and> map_option version (deployments (dr_run init_registry
       (demo_deployed @ [RequestRollback 5000000 100 3000 (demo_ctx 101)])) 101) = Some 1
   \<and> map_option DeploymentRecord.repo_url (deployments (dr_run init_registry
       (demo_deployed @ [RequestRollback 5000000 100 3000 (demo_ctx 101)])) 101) = Some ''repo''
   \<and> map_option DeploymentRecord.user (deployments (dr_run init_registry
       (demo_deployed @ [RequestRollback 5000000 100 3000 (demo_ctx 101)])) 101) = Some 7
   \<and> get_user_deployments (dr_run init_registry
       (demo_deployed @ [RequestRollback 5000000 100 3000 (demo_ctx 101)])) 7 = [100, 101]"
  by (simp add: demo_simps)

lemma dr_run_append: "dr_run reg (xs @ ys) = dr_run (dr_run reg xs) ys"
  by (induction xs arbitrary: reg) simp_all

lemma registry_inv_reachable: "registry_inv (dr_run init_registry calls)"
  by (rule registry_inv_run [OF registry_inv_init])

text \<open>
  C2, amended.  In every registry reachable from the initial one, a successful
  \<open>request_deployment\<close> creates a record whose version is 1 plus the number of records the
  sender already has with that \<open>repo_url\<close> (regular and rollback records alike), hence 1 for
  the first one and independent of other repos and other users; a successful
  \<open>request_rollback_deployment\<close> takes no new version, it copies the parent's.
\<close>

theorem version_numbering:
  assumes reach: "reg = dr_run init_registry calls"
  shows "(request_deployment reg pay url br commit bc od ew env clock ctx = Inr (reg1, effs1) \<longrightarrow>
            (\<exists>r. deployments reg1 (fresh_id ctx) = Some r
                 \<and> DeploymentRecord.user r = sender ctx
                 \<and> DeploymentRecord.repo_url r = url
                 \<and> version r = 1 + card {i. \<exists>d. deployments reg i = Some d
                                             \<and> DeploymentRecord.user d = sender ctx
                                             \<and> DeploymentRecord.repo_url d = url}))
       \<and> (request_rollback_deployment reg pay' pid clock' ctx' = Inr (reg2, effs2) \<longrightarrow>
            (\<exists>r parent. deployments reg pid = Some parent
                 \<and> deployments reg2 (fresh_id ctx') = Some r
                 \<and> DeploymentRecord.user r = sender ctx'
                 \<and> DeploymentRecord.repo_url r = DeploymentRecord.repo_url parent
                 \<and> version r = version parent))"
proof (intro conjI impI)
  assume "request_deployment reg pay url br commit bc od ew env clock ctx = Inr (reg1, effs1)"
  from request_deployment_Inr [OF this] obtain r ver where
    v: "get_next_version reg url (sender ctx) = Inr ver"
    and r: "deployments reg1 (fresh_id ctx) = Some r" "DeploymentRecord.user r = sender ctx"
           "DeploymentRecord.repo_url r = url" "version r = ver"
    by blast
  from reach have "registry_inv reg" by (simp add: registry_inv_reachable)
  from get_next_version_count [OF this v] r
  show "\<exists>r. deployments reg1 (fresh_id ctx) = Some r
                 \<and> DeploymentRecord.user r = sender ctx
                 \<and> DeploymentRecord.repo_url r = url
                 \<and> version r = 1 + card {i. \<exists>d. deployments reg i = Some d
                                             \<and> DeploymentRecord.user d = sender ctx
                                             \<and> DeploymentRecord.repo_url d = url}"
    by simp
next
  assume "request_rollback_deployment reg pay' pid clock' ctx' = Inr (reg2, effs2)"
  from request_rollback_deployment_Inr [OF this]
  show "\<exists>r parent. deployments reg pid = Some parent
                 \<and> deployments reg2 (fresh_id ctx') = Some r
                 \<and> DeploymentRecord.user r = sender ctx'
                 \<and> DeploymentRecord.repo_url r = DeploymentRecord.repo_url parent
                 \<and> version r = version parent"
    by blast
qed

theorem version_numbering_witness:
  "(\<exists>reg1 effs1. dr_exec (dr_run init_registry demo_deployed) (demo_deploy 3000 101) = Inr (reg1, effs1))
   \<and> map_option version
        (deployments (dr_run init_registry (demo_deployed @ [demo_deploy 3000 101])) 101)
      = Some (1 + card {i. \<exists>d. deployments (dr_run init_registry demo_deployed) i = Some d
                               \<and> DeploymentRecord.user d = 7
                               \<and> DeploymentRecord.repo_url d = ''repo''})
   \<and> map_option version
        (deployments (dr_run init_registry (demo_deployed @ [demo_deploy 3000 101])) 101) = Some 2
   \<and> (\<exists>reg2 effs2. dr_exec (dr_run init_registry demo_deployed)
                       (RequestRollback 5000000 100 3000 (demo_ctx 101)) = Inr (reg2, effs2))"
proof -
  let ?reg = "dr_run init_registry demo_deployed"
  obtain reg1 effs1 where
    h: "request_deployment ?reg 5000000 ''repo'' ''main'' ''c0ffee'' ''make'' ''out'' 0 ''prod'' 3000
          (demo_ctx 101) = Inr (reg1, effs1)"
    by (simp add: demo_simps)
  obtain reg2 effs2 where
    h2: "request_rollback_deployment ?reg 5000000 100 3000 (demo_ctx 101) = Inr (reg2, effs2)"
    by (simp add: demo_simps)
  from h have c: "dr_run init_registry (demo_deployed @ [demo_deploy 3000 101]) = reg1"
    by (simp add: dr_run_append dr_commit_def demo_deploy_def)
  have two: "map_option version (deployments (dr_run init_registry (demo_deployed @ [demo_deploy 3000 101])) 101) = Some 2"
    by (simp add: demo_simps)
  from version_numbering [OF refl, of demo_deployed 5000000 "''repo''" "''main''" "''c0ffee''"
      "''make''" "''out''" 0 "''prod''" 3000 "demo_ctx 101" reg1 effs1 5000000 100 3000 "demo_ctx 101" reg2 effs2]
    h h2 c two
  show ?thesis
    by (auto simp: demo_ctx_def demo_deploy_def)
qed

text \<open>
  C10.  In every registry reachable from the initial one: each id in a user's list is a key of
  \<open>deployments\<close> and the stored record belongs to that user; the list that
  \<open>get_user_deployments\<close> returns is the user's created ids in creation order, and is empty
  for an address without a list; and when the parent exists and belongs to the sender, the
  sender's list exists, so \<open>request_rollback_deployment\<close> does not fail on its unguarded
  \<open>borrow_mut\<close> (it commits whenever the fresh id is unused and the counter can be
  incremented).
\<close>

theorem user_deployments_invariant:
  assumes reach: "reg = dr_run init_registry calls"
  shows "(\<forall>u ids. user_deployments reg u = Some ids \<longrightarrow>
            (\<forall>i\<in>set ids. \<exists>d. deployments reg i = Some d \<and> DeploymentRecord.user d = u))
       \<and> (\<forall>u. get_user_deployments reg u =
                 map snd (filter (\<lambda>p. fst p = u) (dr_created init_registry calls)))
       \<and> (\<forall>u. user_deployments reg u = None \<longrightarrow> get_user_deployments reg u = [])
       \<and> (\<forall>pay pid clock ctx parent.
            deployments reg pid = Some parent \<and> DeploymentRecord.user parent = sender ctx \<longrightarrow>
              user_deployments reg (sender ctx) \<noteq> None
            \<and> request_rollback_deployment reg pay pid clock ctx \<noteq> Inl FieldDoesNotExist
            \<and> (deployments reg (fresh_id ctx) = None \<and> total_deployments reg < MAX_U64 \<longrightarrow>
                 (\<exists>reg' effs. request_rollback_deployment reg pay pid clock ctx = Inr (reg', effs))))"
proof -
  from reach have inv: "registry_inv reg" by (simp add: registry_inv_reachable)
  have p1: "\<forall>u ids. user_deployments reg u = Some ids \<longrightarrow>
            (\<forall>i\<in>set ids. \<exists>d. deployments reg i = Some d \<and> DeploymentRecord.user d = u)"
    using inv unfolding registry_inv_def by blast
  have p2: "\<forall>u. get_user_deployments reg u =
                 map snd (filter (\<lambda>p. fst p = u) (dr_created init_registry calls))"
    using get_user_deployments_run [of init_registry calls]
    by (simp add: reach get_user_deployments_def init_registry_def)
  have p3: "\<forall>u. user_deployments reg u = None \<longrightarrow> get_user_deployments reg u = []"
    by (simp add: get_user_deployments_def)
  have p4: "user_deployments reg (sender ctx) \<noteq> None
            \<and> request_rollback_deployment reg pay pid clock ctx \<noteq> Inl FieldDoesNotExist
            \<and> (deployments reg (fresh_id ctx) = None \<and> total_deployments reg < MAX_U64 \<longrightarrow>
                 (\<exists>reg' effs. request_rollback_deployment reg pay pid clock ctx = Inr (reg', effs)))"
    if par: "deployments reg pid = Some parent" and own: "DeploymentRecord.user parent = sender ctx"
    for pay pid clock ctx parent
  proof -
    from inv par own have "user_deployments reg (sender ctx) \<noteq> None"
      unfolding registry_inv_def by metis
    then obtain ids where ids: "user_deployments reg (sender ctx) = Some ids" by blast
    with par own show ?thesis
      by (simp add: request_rollback_deployment_def Let_def)
  qed
  from p1 p2 p3 p4 show ?thesis by blast
qed

theorem user_deployments_invariant_witness:
  "user_deployments (dr_run init_registry demo_deployed) 7 = Some [100]
   \<and> (\<exists>d. deployments (dr_run init_registry demo_deployed) 100 = Some d \<and> DeploymentRecord.user d = 7)
   \<and> dr_created init_registry demo_deployed = [(7, 100)]
   \<and> user_deployments (dr_run init_registry demo_deployed) 8 = None
   \<and> get_user_deployments (dr_run init_registry demo_deployed) 8 = []
   \<and> deployments (dr_run init_registry demo_deployed) 101 = None
   \<and> total_deployments (dr_run init_registry demo_deployed) < MAX_U64
   \<and> (\<exists>reg' effs. request_rollback_deployment (dr_run init_registry demo_deployed) 0 100 3000
                      (demo_ctx 101) = Inr (reg', effs))"
proof -
  let ?reg = "dr_run init_registry demo_deployed"
  have a: "user_deployments ?reg 7 = Some [100]" by (simp add: demo_simps)
  have b: "user_deployments ?reg 8 = None" by (simp add: demo_simps)
  have c: "deployments ?reg 101 = None" by (simp add: demo_simps)
  have d: "total_deployments ?reg < MAX_U64" by (simp add: demo_simps)
  have e: "dr_created init_registry demo_deployed = [(7, 100)]" by (simp add: demo_simps)
  have s: "sender (demo_ctx 101) = 7" "fresh_id (demo_ctx 101) = 101" by (simp_all add: demo_ctx_def)
  note t = user_deployments_invariant [OF refl, of demo_deployed]
  from t a have "\<exists>d. deployments ?reg 100 = Some d \<and> DeploymentRecord.user d = 7" by auto
  moreover from t b have "get_user_deployments ?reg 8 = []" by blast
  moreover from this calculation t c d s
  have "\<exists>reg' effs. request_rollback_deployment ?reg 0 100 3000 (demo_ctx 101) = Inr (reg', effs)"
    by metis
  ultimately show ?thesis using a b c d e by blast
qed

section \<open>Subscription manager: proofs\<close>

lemma subscribe_Inr:
  assumes "subscribe reg pay tr auto clock ctx = Inr (reg', effs)"
  shows "1 \<le> tr \<and> tr \<le> 3 \<and> subscriptions reg (sender ctx) = None
       \<and> tier_prices reg ! tr \<le> pay
       \<and> (\<exists>s. subscriptions reg' (sender ctx) = Some s
              \<and> subscriptions reg' = (subscriptions reg)(sender ctx \<mapsto> s)
              \<and> Subscription.tier s = tr \<and> total_spent s = pay \<and> history_total s = pay)
       \<and> active_subscriptions reg' =
           (active_subscriptions reg)[tr := active_subscriptions reg ! tr + 1]
       \<and> tier_prices reg' = tier_prices reg
       \<and> coins_paid effs = pay"
  using assms
  by (auto simp: subscribe_def Let_def history_total_def split: if_splits)

lemma renew_subscription_Inr:
  assumes "renew_subscription reg pay clock ctx = Inr (reg', effs)"
  shows "\<exists>s s'. subscriptions reg (sender ctx) = Some s
           \<and> subscriptions reg' (sender ctx) = Some s'
           \<and> subscriptions reg' = (subscriptions reg)(sender ctx \<mapsto> s')
           \<and> Subscription.tier s' = Subscription.tier s
           \<and> tier_prices reg ! Subscription.tier s \<le> pay
           \<and> total_spent s' = total_spent s + pay
           \<and> history_total s' = history_total s + pay
           \<and> end_date s' = (if clock > end_date s then clock else end_date s) + SECONDS_IN_MONTH
           \<and> deployments_used s' = 0 \<and> Subscription.bandwidth_used s' = 0
           \<and> active_subscriptions reg' = active_subscriptions reg
           \<and> tier_prices reg' = tier_prices reg
           \<and> coins_paid effs = pay"
  using assms
  by (auto simp: renew_subscription_def Let_def history_total_def split: if_splits option.splits)

lemma record_deployment_Inr:
  assumes "record_deployment reg tracker did bw st bt clock ctx = Inr ((reg', tracker'), effs)"
  shows "(subscriptions reg (sender ctx) = None \<and> reg' = reg
          \<or> (\<exists>s s'. subscriptions reg (sender ctx) = Some s
                \<and> subscriptions reg' (sender ctx) = Some s'
                \<and> subscriptions reg' = (subscriptions reg)(sender ctx \<mapsto> s')
                \<and> Subscription.tier s' = Subscription.tier s
                \<and> total_spent s' = total_spent s
                \<and> history_total s' = history_total s
                \<and> active_subscriptions reg' = active_subscriptions reg
                \<and> tier_prices reg' = tier_prices reg))
       \<and> coins_paid effs = 0"
  using assms
  by (auto simp: record_deployment_def Let_def history_total_def
           split: if_splits option.splits sum.splits)

lemma upgrade_tier_Inr:
  assumes "upgrade_tier reg pay new_tier clock ctx = Inr (reg', effs)"
  shows "\<exists>s s'. subscriptions reg (sender ctx) = Some s
           \<and> Subscription.tier s < new_tier \<and> new_tier \<le> 3
           \<and> 1 \<le> active_subscriptions reg ! Subscription.tier s
           \<and> subscriptions reg' (sender ctx) = Some s'
           \<and> subscriptions reg' = (subscriptions reg)(sender ctx \<mapsto> s')
           \<and> Subscription.tier s' = new_tier
           \<and> total_spent s' = total_spent s
           \<and> history_total s' = history_total s
           \<and> active_subscriptions reg' =
               ((active_subscriptions reg)
                  [Subscription.tier s := active_subscriptions reg ! Subscription.tier s - 1])
                  [new_tier := active_subscriptions reg ! new_tier + 1]
           \<and> tier_prices reg' = tier_prices reg
           \<and> coins_paid effs = pay"
  using assms
  by (auto simp: upgrade_tier_def Let_def history_total_def split: if_splits option.splits)

lemma cancel_subscription_Inr:
  assumes "cancel_subscription reg clock ctx = Inr (reg', effs)"
  shows "\<exists>s s'. subscriptions reg (sender ctx) = Some s
           \<and> subscriptions reg' (sender ctx) = Some s'
           \<and> subscriptions reg' = (subscriptions reg)(sender ctx \<mapsto> s')
           \<and> Subscription.tier s' = Subscription.tier s
           \<and> total_spent s' = total_spent s
           \<and> history_total s' = history_total s
           \<and> active_subscriptions reg' = active_subscriptions reg
           \<and> tier_prices reg' = tier_prices reg
           \<and> coins_paid effs = 0"
  using assms
  by (auto simp: cancel_subscription_def Let_def history_total_def split: if_splits option.splits)

lemma zeros4: "t < 4 \<Longrightarrow> [0, 0, 0, 0 :: nat] ! t = 0"
  by (simp add: nth_Cons')

lemma sm_inv_init: "sm_inv init_subscription_registry"
  by (simp add: sm_inv_def init_subscription_registry_def tier_users_def zeros4)

lemma finite_tier_users: "finite (dom (subscriptions reg)) \<Longrightarrow> finite (tier_users reg t)"
  by (rule finite_subset [of _ "dom (subscriptions reg)"]) (auto simp: tier_users_def)

text \<open>A stored subscription is replaced by one of the same tier.\<close>

lemma sm_inv_same_tier:
  assumes inv: "sm_inv reg"
    and old: "subscriptions reg u = Some s"
    and S: "subscriptions reg' = (subscriptions reg)(u \<mapsto> s')"
    and t: "Subscription.tier s' = Subscription.tier s"
    and sp: "total_spent s' = history_total s'"
    and A: "active_subscriptions reg' = active_subscriptions reg"
    and P: "tier_prices reg' = tier_prices reg"
  shows "sm_inv reg'"
proof -
  have tu: "tier_users reg' k = tier_users reg k" for k
    using old t by (auto simp: tier_users_def S)
  have d: "dom (subscriptions reg') = dom (subscriptions reg)"
    using old by (auto simp: S)
  from inv old t sp show ?thesis
    unfolding sm_inv_def tu d A P by (auto simp: S)
qed

text \<open>A user without a subscription gets one of tier \<open>tr\<close>.\<close>

lemma sm_inv_new:
  assumes inv: "sm_inv reg"
    and none: "subscriptions reg u = None"
    and S: "subscriptions reg' = (subscriptions reg)(u \<mapsto> s)"
    and t: "Subscription.tier s = tr" "1 \<le> tr" "tr \<le> 3"
    and sp: "total_spent s = history_total s"
    and A: "active_subscriptions reg' =
            (active_subscriptions reg)[tr := active_subscriptions reg ! tr + 1]"
    and P: "tier_prices reg' = tier_prices reg"
  shows "sm_inv reg'"
proof -
  from inv have fin: "finite (dom (subscriptions reg))" and len: "length (active_subscriptions reg) = 4"
    and cnt: "\<forall>k<4. active_subscriptions reg ! k = card (tier_users reg k)"
    by (simp_all add: sm_inv_def)
  have tu_tr: "tier_users reg' tr = insert u (tier_users reg tr)"
    using none t by (auto simp: tier_users_def S)
  have tu_other: "tier_users reg' k = tier_users reg k" if "k \<noteq> tr" for k
    using none t that by (auto simp: tier_users_def S)
  have notin: "u \<notin> tier_users reg tr" using none by (simp add: tier_users_def)
  have card_tr: "card (tier_users reg' tr) = card (tier_users reg tr) + 1"
    using finite_tier_users [OF fin, of tr] notin by (simp add: tu_tr)
  have cnt': "active_subscriptions reg' ! k = card (tier_users reg' k)" if "k < 4" for k
  proof (cases "k = tr")
    case True
    with that len cnt card_tr show ?thesis by (simp add: A)
  next
    case False
    with that len cnt tu_other [OF False] show ?thesis by (simp add: A)
  qed
  have subs: "\<forall>v x. subscriptions reg' v = Some x \<longrightarrow>
      1 \<le> Subscription.tier x \<and> Subscription.tier x \<le> 3 \<and> total_spent x = history_total x"
    using inv t sp by (auto simp: sm_inv_def S)
  from inv fin len cnt' subs show ?thesis
    by (simp add: sm_inv_def A P S)
qed

text \<open>A stored subscription moves from its tier to a higher one.\<close>

lemma sm_inv_upgrade:
  assumes inv: "sm_inv reg"
    and old: "subscriptions reg u = Some s"
    and S: "subscriptions reg' = (subscriptions reg)(u \<mapsto> s')"
    and t: "Subscription.tier s' = new_tier" "Subscription.tier s < new_tier" "new_tier \<le> 3"
    and sp: "total_spent s' = history_total s'"
    and A: "active_subscriptions reg' =
            ((active_subscriptions reg)
               [Subscription.tier s := active_subscriptions reg ! Subscription.tier s - 1])
               [new_tier := active_subscriptions reg ! new_tier + 1]"
    and P: "tier_prices reg' = tier_prices reg"
  shows "sm_inv reg'"
proof -
  let ?o = "Subscription.tier s"
  from inv have fin: "finite (dom (subscriptions reg))" and len: "length (active_subscriptions reg) = 4"
    and cnt: "\<forall>k<4. active_subscriptions reg ! k = card (tier_users reg k)"
    by (simp_all add: sm_inv_def)
  from inv old have o1: "1 \<le> ?o" by (auto simp: sm_inv_def)
  have tu_new: "tier_users reg' new_tier = insert u (tier_users reg new_tier)"
    using old t by (auto simp: tier_users_def S)
  have tu_old: "tier_users reg' ?o = tier_users reg ?o - {u}"
    using old t by (auto simp: tier_users_def S)
  have tu_other: "tier_users reg' k = tier_users reg k" if "k \<noteq> new_tier" "k \<noteq> ?o" for k
    using old t that by (auto simp: tier_users_def S)
  have notin: "u \<notin> tier_users reg new_tier" using old t by (simp add: tier_users_def)
  have isin: "u \<in> tier_users reg ?o" using old by (simp add: tier_users_def)
  have card_new: "card (tier_users reg' new_tier) = card (tier_users reg new_tier) + 1"
    using finite_tier_users [OF fin, of new_tier] notin by (simp add: tu_new)
  have card_old: "card (tier_users reg' ?o) = card (tier_users reg ?o) - 1"
    using finite_tier_users [OF fin, of ?o] isin by (simp add: tu_old)
  have cnt': "active_subscriptions reg' ! k = card (tier_users reg' k)" if "k < 4" for k
  proof -
    consider "k = new_tier" | "k = ?o" | "k \<noteq> new_tier" "k \<noteq> ?o" by blast
    then show ?thesis
    proof cases
      case 1
      with that len cnt card_new t show ?thesis by (simp add: A)
    next
      case 2
      with that len cnt card_old t show ?thesis by (simp add: A)
    next
      case 3
      with that len cnt tu_other [OF 3] show ?thesis by (simp add: A)
    qed
  qed
  have d: "dom (subscriptions reg') = dom (subscriptions reg)"
    using old by (auto simp: S)
  have subs: "\<forall>v x. subscriptions reg' v = Some x \<longrightarrow>
      1 \<le> Subscription.tier x \<and> Subscription.tier x \<le> 3 \<and> total_spent x = history_total x"
    using inv t sp o1 by (auto simp: sm_inv_def S)
  from inv fin len cnt' subs show ?thesis
    by (simp add: sm_inv_def A P d)
qed

lemma sm_inv_exec:
  assumes inv: "sm_inv reg" and ex: "sm_exec reg call = Inr (reg', effs)"
  shows "sm_inv reg'"
proof (cases call)
  case (Subscribe pay tr auto clock ctx)
  with ex have "subscribe reg pay tr auto clock ctx = Inr (reg', effs)" by simp
  from subscribe_Inr [OF this] inv show ?thesis
    by (auto intro: sm_inv_new)
next
  case (RenewSubscription pay clock ctx)
  with ex have "renew_subscription reg pay clock ctx = Inr (reg', effs)" by simp
  from renew_subscription_Inr [OF this] obtain s s' where
    f: "subscriptions reg (sender ctx) = Some s"
       "subscriptions reg' = (subscriptions reg)(sender ctx \<mapsto> s')"
       "Subscription.tier s' = Subscription.tier s"
       "total_spent s' = total_spent s + pay" "history_total s' = history_total s + pay"
       "active_subscriptions reg' = active_subscriptions reg" "tier_prices reg' = tier_prices reg"
    by blast
  from inv f(1) have "total_spent s = history_total s" by (auto simp: sm_inv_def)
  with f have "total_spent s' = history_total s'" by simp
  with inv f show ?thesis by (blast intro: sm_inv_same_tier)
next
  case (RecordDeployment tracker did bw st bt clock ctx)
  with ex obtain tracker' where
    "record_deployment reg tracker did bw st bt clock ctx = Inr ((reg', tracker'), effs)"
    by (auto split: sum.splits)
  from record_deployment_Inr [OF this] have
    "reg' = reg \<or> (\<exists>s s'. subscriptions reg (sender ctx) = Some s
                \<and> subscriptions reg' = (subscriptions reg)(sender ctx \<mapsto> s')
                \<and> Subscription.tier s' = Subscription.tier s
                \<and> total_spent s' = total_spent s
                \<and> history_total s' = history_total s
                \<and> active_subscriptions reg' = active_subscriptions reg
                \<and> tier_prices reg' = tier_prices reg)" by blast
  then show ?thesis
  proof
    assume "reg' = reg" with inv show ?thesis by simp
  next
    assume "\<exists>s s'. subscriptions reg (sender ctx) = Some s
                \<and> subscriptions reg' = (subscriptions reg)(sender ctx \<mapsto> s')
                \<and> Subscription.tier s' = Subscription.tier s
                \<and> total_spent s' = total_spent s
                \<and> history_total s' = history_total s
                \<and> active_subscriptions reg' = active_subscriptions reg
                \<and> tier_prices reg' = tier_prices reg"
    then obtain s s' where
      f: "subscriptions reg (sender ctx) = Some s"
         "subscriptions reg' = (subscriptions reg)(sender ctx \<mapsto> s')"
         "Subscription.tier s' = Subscription.tier s"
         "total_spent s' = total_spent s" "history_total s' = history_total s"
         "active_subscriptions reg' = active_subscriptions reg" "tier_prices reg' = tier_prices reg"
      by blast
    from inv f(1) have "total_spent s = history_total s" by (auto simp: sm_inv_def)
    with f have "total_spent s' = history_total s'" by simp
    with inv f show ?thesis by (blast intro: sm_inv_same_tier)
  qed
next
  case (UpgradeTier pay new_tier clock ctx)
  with ex have "upgrade_tier reg pay new_tier clock ctx = Inr (reg', effs)" by simp
  from upgrade_tier_Inr [OF this] obtain s s' where
    f: "subscriptions reg (sender ctx) = Some s"
       "Subscription.tier s < new_tier" "new_tier \<le> 3"
       "subscriptions reg' = (subscriptions reg)(sender ctx \<mapsto> s')"
       "Subscription.tier s' = new_tier"
       "total_spent s' = total_spent s" "history_total s' = history_total s"
       "active_subscriptions reg' =
               ((active_subscriptions reg)
                  [Subscription.tier s := active_subscriptions reg ! Subscription.tier s - 1])
                  [new_tier := active_subscriptions reg ! new_tier + 1]"
       "tier_prices reg' = tier_prices reg"
    by blast
  from inv f(1) have "total_spent s = history_total s" by (auto simp: sm_inv_def)
  with f have "total_spent s' = history_total s'" by simp
  with inv f show ?thesis by (blast intro: sm_inv_upgrade)
next
  case (CancelSubscription clock ctx)
  with ex have "cancel_subscription reg clock ctx = Inr (reg', effs)" by simp
  from cancel_subscription_Inr [OF this] obtain s s' where
    f: "subscriptions reg (sender ctx) = Some s"
       "subscriptions reg' = (subscriptions reg)(sender ctx \<mapsto> s')"
       "Subscription.tier s' = Subscription.tier s"
       "total_spent s' = total_spent s" "history_total s' = history_total s"
       "active_subscriptions reg' = active_subscriptions reg" "tier_prices reg' = tier_prices reg"
    by blast
  from inv f(1) have "total_spent s = history_total s" by (auto simp: sm_inv_def)
  with f have "total_spent s' = history_total s'" by simp
  with inv f show ?thesis by (blast intro: sm_inv_same_tier)
qed

lemma sm_inv_commit: "sm_inv reg \<Longrightarrow> sm_inv (sm_commit reg call)"
  by (auto simp: sm_commit_def split: sum.splits dest: sm_inv_exec)

lemma sm_inv_run: "sm_inv reg \<Longrightarrow> sm_inv (sm_run reg calls)"
  by (induction calls arbitrary: reg) (simp_all add: sm_inv_commit)

lemma sm_inv_reachable: "sm_inv (sm_run init_subscription_registry calls)"
  by (rule sm_inv_run [OF sm_inv_init])

lemmas sm_demo_simps =
  demo_subscribed_def demo_upgraded_def sm_commit_def subscribe_def renew_subscription_def
  upgrade_tier_def init_subscription_registry_def history_total_def MAX_U64_def Let_def
  SECONDS_IN_MONTH_def E_SUBSCRIPTION_INSUFFICIENT_PAYMENT_def E_INVALID_TIER_def
  E_ALREADY_SUBSCRIBED_def E_SUBSCRIPTION_NOT_FOUND_def

lemma sm_run_append: "sm_run reg (xs @ ys) = sm_run (sm_run reg xs) ys"
  by (induction xs arbitrary: reg) simp_all

lemma total_spent_is_history_total:
  "subscriptions (sm_run init_subscription_registry calls) u = Some s \<Longrightarrow>
   total_spent s = history_total s"
  using sm_inv_reachable [of calls] by (simp add: sm_inv_def)

lemma paid_tier_price:
  "1 \<le> t \<Longrightarrow> t \<le> 3 \<Longrightarrow> t < k \<Longrightarrow> k \<le> 3 \<Longrightarrow>
   [0, 10000000, 50000000, 200000000 :: nat] ! t < [0, 10000000, 50000000, 200000000] ! k"
proof -
  assume a: "1 \<le> t" "t \<le> 3" "t < k" "k \<le> 3"
  then consider "t = 1 \<and> k = 2" | "t = 1 \<and> k = 3" | "t = 2 \<and> k = 3" by arith
  then show ?thesis by cases simp_all
qed



text \<open>
  C5.  For a subscription stored in a reachable registry and a strictly higher tier (at most
  3, with room in that tier's counter), \<open>upgrade_tier\<close> asks for the difference of the two
  tier prices: a payment equal to the difference commits and stores the new tier, a payment one
  unit less aborts with the module's \<open>E_INSUFFICIENT_PAYMENT\<close>; more generally every payment
  below the difference aborts so, and every payment from the difference up commits.
\<close>

theorem upgrade_tier_price_difference:
  assumes reach: "reg = sm_run init_subscription_registry calls"
    and sub: "subscriptions reg (sender ctx) = Some s"
    and higher: "Subscription.tier s < new_tier" "new_tier \<le> 3"
    and no_overflow: "active_subscriptions reg ! new_tier < MAX_U64"
    and diff: "price_diff = tier_prices reg ! new_tier - tier_prices reg ! Subscription.tier s"
  shows "tier_prices reg ! Subscription.tier s < tier_prices reg ! new_tier
       \<and> (\<exists>reg' effs s'. upgrade_tier reg price_diff new_tier clock ctx = Inr (reg', effs)
              \<and> subscriptions reg' (sender ctx) = Some s' \<and> Subscription.tier s' = new_tier)
       \<and> upgrade_tier reg (price_diff - 1) new_tier clock ctx
            = Inl (Abort E_SUBSCRIPTION_INSUFFICIENT_PAYMENT)
       \<and> (\<forall>pay. pay < price_diff \<longrightarrow>
              upgrade_tier reg pay new_tier clock ctx = Inl (Abort E_SUBSCRIPTION_INSUFFICIENT_PAYMENT))
       \<and> (\<forall>pay. price_diff \<le> pay \<longrightarrow>
              (\<exists>reg' effs. upgrade_tier reg pay new_tier clock ctx = Inr (reg', effs)))"
proof -
  let ?o = "Subscription.tier s"
  from reach have inv: "sm_inv reg" by (simp add: sm_inv_reachable)
  then have prices: "tier_prices reg = [0, 10000000, 50000000, 200000000]"
    and len: "length (active_subscriptions reg) = 4"
    and fin: "finite (dom (subscriptions reg))"
    and cnt: "\<forall>k<4. active_subscriptions reg ! k = card (tier_users reg k)"
    by (simp_all add: sm_inv_def)
  from inv sub have o: "1 \<le> ?o" "?o \<le> 3" by (auto simp: sm_inv_def)
  from paid_tier_price [OF o higher] have lt: "tier_prices reg ! ?o < tier_prices reg ! new_tier"
    by (simp add: prices)
  with diff have pos: "0 < price_diff" by simp
  from sub have "sender ctx \<in> tier_users reg ?o" by (simp add: tier_users_def)
  with finite_tier_users [OF fin, of ?o] have "1 \<le> card (tier_users reg ?o)"
    by (metis One_nat_def Suc_leI card_gt_0_iff empty_iff)
  with cnt o have act: "\<not> active_subscriptions reg ! ?o < 1" by simp
  from higher have nt: "new_tier > 0" "new_tier \<le> 3" "new_tier \<noteq> ?o" by simp_all
  have ok: "\<exists>reg' effs s'. upgrade_tier reg pay new_tier clock ctx = Inr (reg', effs)
              \<and> subscriptions reg' (sender ctx) = Some s' \<and> Subscription.tier s' = new_tier"
    if "price_diff \<le> pay" for pay
    using that sub higher nt o lt act len no_overflow diff
    by (simp add: upgrade_tier_def Let_def prices not_less)
  have bad: "upgrade_tier reg pay new_tier clock ctx = Inl (Abort E_SUBSCRIPTION_INSUFFICIENT_PAYMENT)"
    if "pay < price_diff" for pay
    using that sub higher nt o lt diff
    by (simp add: upgrade_tier_def Let_def prices not_less)
  from pos have "price_diff - 1 < price_diff" by simp
  from lt ok [of price_diff] bad [OF this] bad ok show ?thesis by blast
qed

theorem upgrade_tier_price_difference_witness:
  "map_option Subscription.tier (subscriptions (sm_run init_subscription_registry demo_subscribed) 7)
     = Some 1
   \<and> active_subscriptions (sm_run init_subscription_registry demo_subscribed) ! 2 < MAX_U64
   \<and> tier_prices (sm_run init_subscription_registry demo_subscribed) ! 2
       - tier_prices (sm_run init_subscription_registry demo_subscribed) ! 1 = 40000000
   \<and> (\<exists>reg' effs. upgrade_tier (sm_run init_subscription_registry demo_subscribed) 40000000 2 2000
          \<lparr> sender = 7, fresh_id = 201 \<rparr> = Inr (reg', effs))
   \<and> upgrade_tier (sm_run init_subscription_registry demo_subscribed) 39999999 2 2000
          \<lparr> sender = 7, fresh_id = 201 \<rparr> = Inl (Abort E_SUBSCRIPTION_INSUFFICIENT_PAYMENT)"
proof -
  let ?reg = "sm_run init_subscription_registry demo_subscribed"
  let ?ctx = "\<lparr> sender = 7, fresh_id = 201 \<rparr>"
  obtain s where s: "subscriptions ?reg (sender ?ctx) = Some s" and t: "Subscription.tier s = 1"
    by (simp add: sm_demo_simps)
  have h: "Subscription.tier s < 2" "(2::nat) \<le> 3" by (simp_all add: t)
  have a: "active_subscriptions ?reg ! 2 < MAX_U64" by (simp add: sm_demo_simps)
  have d: "40000000 = tier_prices ?reg ! 2 - tier_prices ?reg ! Subscription.tier s"
    by (simp add: t) (simp add: sm_demo_simps)
  have m: "map_option Subscription.tier (subscriptions ?reg 7) = Some 1"
    using s t by simp
  from upgrade_tier_price_difference [OF refl s h a d, of 2000] a d m t show ?thesis
    by auto
qed

text \<open>
  C6.  The claim: \<open>total_spent\<close> equals the sum of all payments the user ever made, and the sum
  of the amounts of \<open>payment_history\<close>, after every subscription-mutating operation.  The
  second equality holds in every reachable registry (\<open>total_spent_is_history_total\<close> above).
  The first does not survive \<open>upgrade_tier\<close>, which transfers the payment to the treasury and
  records it nowhere: after subscribing for 10000000 and upgrading for 40000000, user 7 has paid
  50000000 and \<open>total_spent\<close> and the history still say 10000000.
\<close>

theorem upgrade_payment_not_recorded:
  "map_option total_spent (subscriptions (sm_run init_subscription_registry demo_upgraded) 7)
     = Some 10000000
   \<and> map_option history_total (subscriptions (sm_run init_subscription_registry demo_upgraded) 7)
     = Some 10000000
   \<and> map_option Subscription.tier (subscriptions (sm_run init_subscription_registry demo_upgraded) 7)
     = Some 2
   \<and> sm_paid 7 init_subscription_registry demo_upgraded = 50000000"
  by (simp add: sm_demo_simps)

section \<open>Payment processor: proofs\<close>

lemma usdc_transferred_out_append [simp]:
  "usdc_transferred_out (xs @ ys) = usdc_transferred_out xs + usdc_transferred_out ys"
  by (induction xs rule: usdc_transferred_out.induct) simp_all

declare batch_loop.simps [simp del]

lemma batch_loop_balance:
  "batch_loop usr clock dids i payments total_amount buffer events = Inr (ps, tot, buf, evs) \<Longrightarrow>
   buf + total_amount = buffer + tot \<and> total_amount \<le> tot
   \<and> usdc_transferred_out evs = usdc_transferred_out events"
proof (induction usr clock dids i payments total_amount buffer events
       rule: batch_loop.induct)
  case (1 usr clock deployment_ids i payments total_amount buffer events)
  note unfold = batch_loop.simps [of usr clock deployment_ids i payments total_amount buffer events]
  show ?case
  proof (cases "i < length payments")
    case False
    with "1.prems" show ?thesis by (simp add: unfold)
  next
    case True
    let ?amt = "last payments"
    from True "1.prems" have c: "\<not> total_amount + ?amt > MAX_U64" "\<not> buffer + ?amt > MAX_U64"
      "\<not> \<not> i < length deployment_ids"
      by (auto simp: unfold Let_def split: if_splits)
    with True "1.prems" have
      "batch_loop usr clock deployment_ids (i + 1) (butlast payments) (total_amount + ?amt)
         (buffer + ?amt) (events @ [PaymentProcessed usr ?amt (deployment_ids ! i) clock])
       = Inr (ps, tot, buf, evs)"
      by (simp add: unfold Let_def)
    from "1.IH" [OF True refl refl refl c this] show ?thesis by simp
  qed
qed

lemma pp_exec_balance:
  assumes "pp_exec p call = Inr (p', effs)"
  shows "usdc_buffer p' + usdc_transferred_out effs + total_usdc_processed p
           = usdc_buffer p + total_usdc_processed p'
       \<and> total_usdc_processed p \<le> total_usdc_processed p'"
proof (cases call)
  case (ProcessPayment payment expected_wal did clock ctx)
  with assms show ?thesis
    by (auto simp: process_payment_def Let_def split: if_splits)
next
  case (SimulateSwap mock_wal clock ctx)
  with assms show ?thesis
    by (auto simp: simulate_swap_def Let_def split: if_splits)
next
  case (TransferWalToTreasury admin amt clock ctx)
  with assms show ?thesis
    by (auto simp: transfer_wal_to_treasury_def split: if_splits)
next
  case (EmergencyWithdrawUsdc admin ctx)
  with assms show ?thesis
    by (auto simp: emergency_withdraw_usdc_def Let_def split: if_splits)
next
  case (UpdateConfig admin new_threshold new_slippage new_treasury ctx)
  with assms show ?thesis
    by (auto simp: update_config_def)
next
  case (BatchProcessPayments payments deployment_ids clock ctx)
  with assms obtain ps tot buf evs where
    l: "batch_loop (sender ctx) clock deployment_ids 0 payments 0 (usdc_buffer p) [] = Inr (ps, tot, buf, evs)"
    and r: "p' = p \<lparr> usdc_buffer := buf, total_usdc_processed := total_usdc_processed p + tot \<rparr>"
           "effs = evs"
    by (auto simp: batch_process_payments_def Let_def split: sum.splits if_splits)
  from batch_loop_balance [OF l] r show ?thesis by simp
qed

lemma pp_run_balance:
  "usdc_buffer (pp_run p calls) + usdc_transferred_out (pp_trace p calls) + total_usdc_processed p
     = usdc_buffer p + total_usdc_processed (pp_run p calls)
   \<and> total_usdc_processed p \<le> total_usdc_processed (pp_run p calls)"
proof (induction calls arbitrary: p)
  case Nil
  show ?case by simp
next
  case (Cons call calls)
  show ?case
  proof (cases "pp_exec p call")
    case (Inl e)
    then have "pp_commit p call = p" by (simp add: pp_commit_def)
    with Inl Cons.IH [of p] show ?thesis by simp
  next
    case (Inr res)
    obtain p' effs where res: "res = (p', effs)" by (cases res)
    with Inr have c: "pp_commit p call = p'" by (simp add: pp_commit_def)
    from Inr res have e: "pp_exec p call = Inr (p', effs)" by simp
    from pp_exec_balance [OF e] Cons.IH [of p'] Inr res c show ?thesis by simp
  qed
qed

lemmas pp_demo_simps =
  demo_payments_def demo_swap_def demo_swapped_def pp_commit_def process_payment_def
  simulate_swap_def transfer_wal_to_treasury_def init_processor_def all_transferred_out_def
  MAX_U64_def Let_def E_INSUFFICIENT_BALANCE_def

text \<open>
  C7, as stated, fails: after every operation the buffer balance is claimed to equal
  \<open>total_usdc_processed\<close> minus the sum of all transfers out.  After a payment of 5000000, a
  swap that brings in 50 WAL and the transfer of those 50 WAL to the treasury, the total
  processed is 5000000 and both buffers are empty, while the transfers out sum to 50 (the
  specification's \<open>transferOut\<close>, \<open>transfer_wal_to_treasury\<close>) or to 5000050 (every coin that
  left, of either token).  Neither buffer equals the total minus either sum.
\<close>

theorem buffer_balance_counterexample:
  "total_usdc_processed (pp_run init_processor demo_swapped) = 5000000
   \<and> usdc_buffer (pp_run init_processor demo_swapped) = 0
   \<and> wal_buffer (pp_run init_processor demo_swapped) = 0
   \<and> transfersOut (pp_trace init_processor demo_swapped) = 50
   \<and> all_transferred_out (pp_trace init_processor demo_swapped) = 5000050
   \<and> usdc_buffer (pp_run init_processor demo_swapped)
        \<noteq> total_usdc_processed (pp_run init_processor demo_swapped)
            - transfersOut (pp_trace init_processor demo_swapped)
   \<and> wal_buffer (pp_run init_processor demo_swapped)
        \<noteq> total_usdc_processed (pp_run init_processor demo_swapped)
            - transfersOut (pp_trace init_processor demo_swapped)
   \<and> int (usdc_buffer (pp_run init_processor demo_swapped))
        \<noteq> int (total_usdc_processed (pp_run init_processor demo_swapped))
            - int (all_transferred_out (pp_trace init_processor demo_swapped))"
  by (simp add: pp_demo_simps)

text \<open>
  C7, amended.  \<open>total_usdc_processed\<close> never decreases: it is at least as large after any
  transaction, committed or aborted, as before.  And after every sequence of transactions from
  the initial processor, the USDC buffer equals \<open>total_usdc_processed\<close> minus the sum of the
  USDC taken out of that buffer (by \<open>simulate_swap\<close> to the treasury and by
  \<open>emergency_withdraw_usdc\<close> to the sender), a sum that never exceeds the total.  The
  specification's \<open>transferOut\<close>, \<open>transfer_wal_to_treasury\<close>, does not enter the equation: it
  draws on the WAL buffer only and leaves the USDC buffer and the total as they were.
\<close>

theorem payment_processor_invariant:
  "total_usdc_processed p \<le> total_usdc_processed (pp_commit p call)
   \<and> usdc_transferred_out (pp_trace init_processor calls)
        \<le> total_usdc_processed (pp_run init_processor calls)
   \<and> usdc_buffer (pp_run init_processor calls)
        = total_usdc_processed (pp_run init_processor calls)
          - usdc_transferred_out (pp_trace init_processor calls)
   \<and> (transfer_wal_to_treasury q admin amt clock ctx = Inr (q', effs) \<longrightarrow>
          usdc_buffer q' = usdc_buffer q
        \<and> total_usdc_processed q' = total_usdc_processed q
        \<and> usdc_transferred_out effs = 0
        \<and> transfersOut effs = amt
        \<and> wal_buffer q' + amt = wal_buffer q)"
proof -
  have mono: "total_usdc_processed p \<le> total_usdc_processed (pp_commit p call)"
  proof (cases "pp_exec p call")
    case (Inl e)
    then show ?thesis by (simp add: pp_commit_def)
  next
    case (Inr res)
    obtain p' effs' where res: "res = (p', effs')" by (cases res)
    with Inr have "pp_exec p call = Inr (p', effs')" by simp
    from pp_exec_balance [OF this] Inr res show ?thesis by (simp add: pp_commit_def)
  qed
  from pp_run_balance [of init_processor calls]
  have bal: "usdc_buffer (pp_run init_processor calls)
               + usdc_transferred_out (pp_trace init_processor calls)
             = total_usdc_processed (pp_run init_processor calls)"
    by (simp add: init_processor_def)
  have wal: "transfer_wal_to_treasury q admin amt clock ctx = Inr (q', effs) \<longrightarrow>
          usdc_buffer q' = usdc_buffer q
        \<and> total_usdc_processed q' = total_usdc_processed q
        \<and> usdc_transferred_out effs = 0
        \<and> transfersOut effs = amt
        \<and> wal_buffer q' + amt = wal_buffer q"
    by (auto simp: transfer_wal_to_treasury_def split: if_splits)
  from mono bal wal show ?thesis by arith
qed

theorem payment_processor_invariant_witness:
  "total_usdc_processed (pp_run init_processor demo_payments) = 13000000
   \<and> usdc_transferred_out (pp_trace init_processor demo_payments) = 12000000
   \<and> transfersOut (pp_trace init_processor demo_payments) = 40
   \<and> usdc_buffer (pp_run init_processor demo_payments) = 13000000 - 12000000
   \<and> (\<exists>q' effs.
         transfer_wal_to_treasury (pp_run init_processor demo_swap) \<lparr> admin_id = 1 \<rparr> 50 3000
           \<lparr> sender = 9, fresh_id = 302 \<rparr> = Inr (q', effs)
         \<and> usdc_buffer q' = usdc_buffer (pp_run init_processor demo_swap)
         \<and> total_usdc_processed q' = 5000000
         \<and> transfersOut effs = 50
         \<and> wal_buffer q' = 0)"
proof -
  let ?q = "pp_run init_processor demo_swap"
  have a: "total_usdc_processed (pp_run init_processor demo_payments) = 13000000"
    by (simp add: pp_demo_simps)
  have b: "usdc_transferred_out (pp_trace init_processor demo_payments) = 12000000"
    by (simp add: pp_demo_simps)
  have c: "transfersOut (pp_trace init_processor demo_payments) = 40"
    by (simp add: pp_demo_simps)
  have t: "total_usdc_processed ?q = 5000000" and w: "wal_buffer ?q = 50"
    by (simp_all add: pp_demo_simps)
  obtain q' effs where
    h: "transfer_wal_to_treasury ?q \<lparr> admin_id = 1 \<rparr> 50 3000 \<lparr> sender = 9, fresh_id = 302 \<rparr>
          = Inr (q', effs)"
    by (simp add: pp_demo_simps)
  note inst = payment_processor_invariant
      [of init_processor "SimulateSwap 0 0 \<lparr> sender = 0, fresh_id = 0 \<rparr>" demo_payments
          ?q "\<lparr> admin_id = 1 \<rparr>" 50 3000 "\<lparr> sender = 9, fresh_id = 302 \<rparr>" q' effs]
  from inst a b have buf: "usdc_buffer (pp_run init_processor demo_payments) = 13000000 - 12000000"
    by simp
  from inst h t w have
    "usdc_buffer q' = usdc_buffer ?q \<and> total_usdc_processed q' = 5000000
     \<and> transfersOut effs = 50 \<and> wal_buffer q' = 0"
    by simp
  with h a b c buf show ?thesis by blast
qed

text \<open>
  C8, as stated, fails: \<open>process_payment\<close> is claimed to fail with InvalidAmount when the
  amount is zero.  The module has no such check and no such error code: on the initial
  processor a coin of value 0 is accepted, the processor is unchanged and the event is emitted.
\<close>

theorem process_payment_zero_counterexample:
  "process_payment init_processor 0 0 ''d0'' 1000 \<lparr> sender = 7, fresh_id = 300 \<rparr>
     = Inr (init_processor, [PaymentProcessed 7 0 ''d0'' 1000])"
  by (simp add: process_payment_def init_processor_def MAX_U64_def)

text \<open>
  C8, amended.  \<open>process_payment\<close> accepts every amount, zero included: whenever the buffer
  and \<open>total_usdc_processed\<close> can take the amount within u64 it commits, adds the amount to
  \<open>usdc_buffer\<close> and to \<open>total_usdc_processed\<close>, leaves the WAL side alone and emits exactly
  one \<open>PaymentProcessed\<close> event with the sender, the amount, the deployment id and the time;
  otherwise it aborts on the overflow.  It never aborts with an error code of its own.
\<close>

theorem process_payment_accepts_every_amount:
  "(usdc_buffer p + amt \<le> MAX_U64 \<and> total_usdc_processed p + amt \<le> MAX_U64 \<longrightarrow>
      (\<exists>p'. process_payment p amt expected_wal did clock ctx
               = Inr (p', [PaymentProcessed (sender ctx) amt did clock])
           \<and> usdc_buffer p' = usdc_buffer p + amt
           \<and> total_usdc_processed p' = total_usdc_processed p + amt
           \<and> wal_buffer p' = wal_buffer p
           \<and> total_wal_distributed p' = total_wal_distributed p))
   \<and> (\<not> (usdc_buffer p + amt \<le> MAX_U64 \<and> total_usdc_processed p + amt \<le> MAX_U64) \<longrightarrow>
        process_payment p amt expected_wal did clock ctx = Inl ArithmeticError)
   \<and> process_payment p amt expected_wal did clock ctx \<noteq> Inl (Abort code)"
  by (auto simp: process_payment_def Let_def not_less)

theorem process_payment_accepts_every_amount_witness:
  "usdc_buffer init_processor + 0 \<le> MAX_U64 \<and> total_usdc_processed init_processor + 0 \<le> MAX_U64
   \<and> (\<exists>p'. process_payment init_processor 0 0 ''d0'' 1000 \<lparr> sender = 7, fresh_id = 300 \<rparr>
               = Inr (p', [PaymentProcessed 7 0 ''d0'' 1000])
          \<and> usdc_buffer p' = 0 \<and> total_usdc_processed p' = 0)
   \<and> process_payment (init_processor \<lparr> usdc_buffer := MAX_U64, total_usdc_processed := MAX_U64 \<rparr>)
        1 0 ''d0'' 1000 \<lparr> sender = 7, fresh_id = 300 \<rparr> = Inl ArithmeticError"
proof -
  have h: "usdc_buffer init_processor + 0 \<le> MAX_U64 \<and> total_usdc_processed init_processor + 0 \<le> MAX_U64"
    by (simp add: init_processor_def)
  have n: "\<not> (usdc_buffer (init_processor \<lparr> usdc_buffer := MAX_U64, total_usdc_processed := MAX_U64 \<rparr>) + 1 \<le> MAX_U64
        \<and> total_usdc_processed (init_processor \<lparr> usdc_buffer := MAX_U64, total_usdc_processed := MAX_U64 \<rparr>) + 1 \<le> MAX_U64)"
    by simp
  from process_payment_accepts_every_amount
         [of init_processor 0 0 "''d0''" 1000 "\<lparr> sender = 7, fresh_id = 300 \<rparr>"] h
  have a: "\<exists>p'. process_payment init_processor 0 0 ''d0'' 1000 \<lparr> sender = 7, fresh_id = 300 \<rparr>
               = Inr (p', [PaymentProcessed 7 0 ''d0'' 1000])
          \<and> usdc_buffer p' = 0 \<and> total_usdc_processed p' = 0"
    by (auto simp: init_processor_def)
  from process_payment_accepts_every_amount
         [of "init_processor \<lparr> usdc_buffer := MAX_U64, total_usdc_processed := MAX_U64 \<rparr>" 1 0
             "''d0''" 1000 "\<lparr> sender = 7, fresh_id = 300 \<rparr>"] n
  have b: "process_payment (init_processor \<lparr> usdc_buffer := MAX_U64, total_usdc_processed := MAX_U64 \<rparr>)
        1 0 ''d0'' 1000 \<lparr> sender = 7, fresh_id = 300 \<rparr> = Inl ArithmeticError"
    by blast
  from h a b show ?thesis by blast
qed

section \<open>Client orchestrator: proofs\<close>

lemma calculateDeploymentCost_zero: "calculateDeploymentCost 0 = MIN_PAYMENT_USDC"
  by (simp add: calculateDeploymentCost_def bigint_div_def)

text \<open>
  C9.  With a wallet connected and a balance below \<open>calculateDeploymentCost\<close> of the request's
  estimated units, \<open>deployWithContract\<close> goes from the checking state to the failed state, the
  error is \<open>Insufficient USDC. Required: \<close> followed by the formatted cost, the result is the
  failure with that message, and the only call made is the balance query: \<open>deployWithPayment\<close>,
  the one place that signs and submits, is not reached.  For zero estimated units the cost is
  the minimum, 5000000 (5 USDC).
\<close>

theorem insufficient_balance_fails_without_transaction:
  assumes connected: "account env = Some address"
    and balance: "getBalance env = Some b" "BigInt env (totalBalance b) = Inr v"
    and short: "v < calculateDeploymentCost (estimatedWal request)"
    and run: "deployWithContract env prev request = (states, result, calls)"
  shows "deploymentStatus (last states) = Failed
       \<and> DeploymentState.error (last states)
           = Some (''Insufficient USDC. Required: ''
                   @ formatUSDC env (calculateDeploymentCost (estimatedWal request)))
       \<and> \<not> isDeploying (last states)
       \<and> map deploymentStatus states = [Checking, Checking, Failed]
       \<and> result = failure (''Insufficient USDC. Required: ''
                   @ formatUSDC env (calculateDeploymentCost (estimatedWal request)))
       \<and> calls = [GetBalance address]
       \<and> (estimatedWal request = 0 \<longrightarrow>
             calculateDeploymentCost (estimatedWal request) = 5000000)"
  using assms
  by (auto simp: deployWithContract_def Let_def calculateDeploymentCost_zero MIN_PAYMENT_USDC_def)

theorem insufficient_balance_fails_without_transaction_witness:
  "account demo_env = Some ''0xabc''
   \<and> getBalance demo_env = Some \<lparr> totalBalance = ''3000000'' \<rparr>
   \<and> BigInt demo_env ''3000000'' = Inr 3000000
   \<and> (3000000 :: int) < calculateDeploymentCost (estimatedWal demo_request)
   \<and> map deploymentStatus (fst (deployWithContract demo_env idle_state demo_request))
        = [Checking, Checking, Failed]
   \<and> DeploymentState.error (last (fst (deployWithContract demo_env idle_state demo_request)))
        = Some ''Insufficient USDC. Required: $5.00''
   \<and> snd (snd (deployWithContract demo_env idle_state demo_request)) = [GetBalance ''0xabc'']"
proof -
  have a: "account demo_env = Some ''0xabc''" by (simp add: demo_env_def)
  have b: "getBalance demo_env = Some \<lparr> totalBalance = ''3000000'' \<rparr>" by (simp add: demo_env_def)
  have c: "BigInt demo_env (totalBalance \<lparr> totalBalance = ''3000000'' \<rparr>) = Inr 3000000"
    by (simp add: demo_env_def)
  have d: "(3000000 :: int) < calculateDeploymentCost (estimatedWal demo_request)"
    by (simp add: demo_request_def calculateDeploymentCost_zero MIN_PAYMENT_USDC_def)
  have f: "formatUSDC demo_env (calculateDeploymentCost (estimatedWal demo_request)) = ''$5.00''"
    by (simp add: demo_request_def calculateDeploymentCost_zero MIN_PAYMENT_USDC_def
          formatUSDC_def demo_env_def)
  obtain states result calls where
    r: "deployWithContract demo_env idle_state demo_request = (states, result, calls)"
    by (cases "deployWithContract demo_env idle_state demo_request")
  from insufficient_balance_fails_without_transaction [OF a b c d r] a b c d f r
  show ?thesis by simp
qed

end
